theory Spec2Isabelle
  imports Main "HOL-Library.AList" "HOL-Library.Sublist"
begin

section \<open>Values, strings and errors\<close>

text \<open>
  The backend of the microposting platform (\<^verbatim>\<open>backend/src\<close>) is embedded function by
  function. A JavaScript string is a list of code units; the development covers the code
  units below 256 (Latin-1), which is all the validators distinguish. A request field can
  hold any JSON value; the validators only ask whether \<^verbatim>\<open>typeof\<close> is \<^verbatim>\<open>'string'\<close>.
\<close>

datatype js_value = JString string | JOther
  \<comment> \<open>\<open>JOther\<close>: any value whose typeof is not 'string' (undefined, null, numbers, objects)\<close>

text \<open>
  A timestamp field holds either a Date object or, after a trip through
  \<^verbatim>\<open>JSON.parse(JSON.stringify(...))\<close>, the ISO-8601 string of the same instant. Both carry
  the time value in milliseconds.
\<close>

datatype js_date = DateObj int | DateStr int

fun time_value :: "js_date \<Rightarrow> int" where
  "time_value (DateObj t) = t"
| "time_value (DateStr t) = t"

fun is_DateObj :: "js_date \<Rightarrow> bool" where
  "is_DateObj (DateObj t) = True"
| "is_DateObj (DateStr t) = False"

text \<open>\<^verbatim>\<open>utils/errors.js\<close>: every application error carries class, message, code and HTTP status.\<close>

datatype error_class =
  ValidationErrorC | InvalidCredentialsErrorC | UnauthorizedErrorC | ForbiddenErrorC
  | NotFoundErrorC | ConflictErrorC | AccountLockedErrorC | RateLimitErrorC

datatype js_error =
  AppError (err_class: error_class) (message: string) (code: string) (statusCode: nat)
  | TypeError
  \<comment> \<open>\<open>TypeError\<close>: the engine's own error when a method is called on a value that does
      not have it (\<open>getTime\<close> on a string, \<open>toUpperCase\<close> on an array)\<close>

definition ValidationError :: "string \<Rightarrow> js_error" where
  "ValidationError msg = AppError ValidationErrorC msg ''VALIDATION_ERROR'' 400"

definition InvalidCredentialsError :: js_error where
  "InvalidCredentialsError =
     AppError InvalidCredentialsErrorC ''Invalid email or password'' ''INVALID_CREDENTIALS'' 401"

definition ForbiddenError :: "string \<Rightarrow> js_error" where
  "ForbiddenError msg = AppError ForbiddenErrorC msg ''FORBIDDEN'' 403"

definition NotFoundError :: "string \<Rightarrow> js_error" where
  "NotFoundError resource = AppError NotFoundErrorC (resource @ '' not found'') ''NOT_FOUND'' 404"

definition ConflictError :: "string \<Rightarrow> js_error" where
  "ConflictError msg = AppError ConflictErrorC msg ''CONFLICT'' 409"

definition AccountLockedError :: js_error where
  "AccountLockedError =
     AppError AccountLockedErrorC
       ''Account temporarily locked due to multiple failed login attempts''
       ''ACCOUNT_LOCKED'' 423"

section \<open>String primitives\<close>

definition is_space :: "char \<Rightarrow> bool" where
  \<comment> \<open>the class \<open>\s\<close>, also what \<open>trim\<close> strips: TAB, LF, VT, FF, CR, SPACE, NBSP\<close>
  "is_space c = (of_char c \<in> {9, 10, 11, 12, 13, 32, 160 :: nat})"

definition trim :: "string \<Rightarrow> string" where
  "trim s = rev (dropWhile is_space (rev (dropWhile is_space s)))"

definition toUpperCase_char :: "char \<Rightarrow> char" where
  \<comment> \<open>a-z and the Latin-1 letters whose capital is again below 256\<close>
  "toUpperCase_char c =
     (let n = of_char c :: nat in
      if (97 \<le> n \<and> n \<le> 122) \<or> (224 \<le> n \<and> n \<le> 254 \<and> n \<noteq> 247)
      then char_of (n - 32) else c)"

definition toLowerCase_char :: "char \<Rightarrow> char" where
  "toLowerCase_char c =
     (let n = of_char c :: nat in
      if (65 \<le> n \<and> n \<le> 90) \<or> (192 \<le> n \<and> n \<le> 222 \<and> n \<noteq> 215)
      then char_of (n + 32) else c)"

definition toUpperCase :: "string \<Rightarrow> string" where
  "toUpperCase s = map toUpperCase_char s"

definition toLowerCase :: "string \<Rightarrow> string" where
  "toLowerCase s = map toLowerCase_char s"

section \<open>Validators (\<^verbatim>\<open>utils/validators.js\<close>)\<close>

definition MAX_POST_LENGTH :: nat where "MAX_POST_LENGTH = 280"
definition MIN_PASSWORD_LENGTH :: nat where "MIN_PASSWORD_LENGTH = 8"
definition MIN_DISPLAY_NAME_LENGTH :: nat where "MIN_DISPLAY_NAME_LENGTH = 2"

definition email_char :: "char \<Rightarrow> bool" where
  \<comment> \<open>the class \<open>[^\s@]\<close>\<close>
  "email_char c = (\<not> is_space c \<and> c \<noteq> CHR ''@'')"

definition EMAIL_REGEX_test :: "string \<Rightarrow> bool" where
  \<comment> \<open>\<open>/^[^\s@]+@[^\s@]+\.[^\s@]+$/\<close>: a non-empty local part, one \<open>@\<close>, and a domain with a
      dot that is neither its first nor its last character\<close>
  "EMAIL_REGEX_test s =
     (let local = takeWhile email_char s; rest = dropWhile email_char s in
      local \<noteq> [] \<and>
      (case rest of
         [] \<Rightarrow> False
       | c # domain \<Rightarrow> c = CHR ''@'' \<and> list_all email_char domain \<and>
                    CHR ''.'' \<in> set (butlast (tl domain))))"

fun isValidEmail :: "js_value \<Rightarrow> bool" where
  "isValidEmail (JString s) = EMAIL_REGEX_test s"
| "isValidEmail JOther = False"

fun isNonEmptyString :: "js_value \<Rightarrow> bool" where
  "isNonEmptyString (JString s) = (length (trim s) > 0)"
| "isNonEmptyString JOther = False"

definition is_hex :: "char \<Rightarrow> bool" where
  "is_hex c = (c \<in> set ''0123456789abcdefABCDEF'')"

definition UUID_classes :: "(char \<Rightarrow> bool) list" where
  \<comment> \<open>\<open>/^[0-9a-f]{8}-[0-9a-f]{4}-4[0-9a-f]{3}-[89ab][0-9a-f]{3}-[0-9a-f]{12}$/i\<close>, one class
      per position\<close>
  "UUID_classes =
     replicate 8 is_hex @ [\<lambda>c. c = CHR ''-''] @
     replicate 4 is_hex @ [\<lambda>c. c = CHR ''-''] @
     [\<lambda>c. c = CHR ''4''] @ replicate 3 is_hex @ [\<lambda>c. c = CHR ''-''] @
     [\<lambda>c. c \<in> set ''89abAB''] @ replicate 3 is_hex @ [\<lambda>c. c = CHR ''-''] @
     replicate 12 is_hex"

definition UUID_REGEX_test :: "string \<Rightarrow> bool" where
  "UUID_REGEX_test s = list_all2 (\<lambda>p c. p c) UUID_classes s"

fun isValidId :: "js_value \<Rightarrow> bool" where
  "isValidId (JString s) = UUID_REGEX_test s"
| "isValidId JOther = False"

text \<open>
  \<^verbatim>\<open>sanitizeText\<close>: drop angle brackets, replace every run of white space by one blank, trim.
\<close>

function collapse_ws :: "string \<Rightarrow> string" where
  "collapse_ws [] = []"
| "collapse_ws (c # cs) =
     (if is_space c then CHR '' '' # collapse_ws (dropWhile is_space cs)
      else c # collapse_ws cs)"
  by pat_completeness auto
termination
  by (relation "measure length") (auto simp: le_imp_less_Suc length_dropWhile_le)

fun sanitizeText :: "js_value \<Rightarrow> string" where
  "sanitizeText JOther = []"
| "sanitizeText (JString text) =
     trim (collapse_ws (filter (\<lambda>c. c \<noteq> CHR ''<'' \<and> c \<noteq> CHR ''>'') text))"

definition clamp :: "int \<Rightarrow> int \<Rightarrow> int \<Rightarrow> int" where
  "clamp v lo hi = min (max v lo) hi"

text \<open>
  \<^verbatim>\<open>validatePagination(limit, offset, order)\<close>. An argument is \<open>None\<close> when it is
  \<^verbatim>\<open>undefined\<close>. For limit and offset the controllers pass \<^verbatim>\<open>parseInt(...)\<close>: an integer,
  or a value that fails \<^verbatim>\<open>Number.isInteger\<close> (\<open>JNonInteger\<close>: NaN, and any other defined
  value that is not an integer). The order is \<^verbatim>\<open>req.query.order\<close> as the query parser left
  it: a string, or an array or object (\<open>JOther\<close>), on which \<^verbatim>\<open>order.toUpperCase()\<close> throws
  a TypeError in the middle of the validation.
\<close>

datatype js_number = JInt int | JNonInteger

datatype sort_order = ASC | DESC

record pagination =
  limit :: int
  offset :: int
  order :: sort_order

fun limit_errors :: "js_number option \<Rightarrow> string list" where
  "limit_errors None = []"
| "limit_errors (Some JNonInteger) = [''Limit must be an integer between 1 and 100'']"
| "limit_errors (Some (JInt n)) =
     (if n < 1 \<or> n > 100 then [''Limit must be an integer between 1 and 100''] else [])"

fun offset_errors :: "js_number option \<Rightarrow> string list" where
  "offset_errors None = []"
| "offset_errors (Some JNonInteger) = [''Offset must be a non-negative integer'']"
| "offset_errors (Some (JInt n)) =
     (if n < 0 then [''Offset must be a non-negative integer''] else [])"

fun order_errors :: "js_value option \<Rightarrow> js_error + string list" where
  "order_errors None = Inr []"
| "order_errors (Some (JString s)) =
     Inr (if toUpperCase s \<in> set [''ASC'', ''DESC''] then [] else [''Order must be ASC or DESC''])"
| "order_errors (Some JOther) = Inl TypeError"

fun join :: "string \<Rightarrow> string list \<Rightarrow> string" where
  "join sep [] = []"
| "join sep [x] = x"
| "join sep (x # y # ys) = x @ sep @ join sep (y # ys)"

definition validatePagination ::
  "js_number option \<Rightarrow> js_number option \<Rightarrow> js_value option \<Rightarrow> js_error + pagination" where
  "validatePagination lim off ord =
     (case order_errors ord of
        Inl thrown \<Rightarrow> Inl thrown
      | Inr about_order \<Rightarrow>
          (let errors = limit_errors lim @ offset_errors off @ about_order in
           if length errors > 0 then Inl (ValidationError (join '', '' errors))
           else Inr \<lparr>
             limit = (case lim of
                        Some (JInt n) \<Rightarrow> (if n \<noteq> 0 then clamp n 1 100 else 20)
                      | _ \<Rightarrow> 20),
             offset = (case off of Some (JInt n) \<Rightarrow> n | _ \<Rightarrow> 0),
             order = (case ord of
                        Some (JString s) \<Rightarrow>
                          (if s \<noteq> [] then (if toUpperCase s = ''ASC'' then ASC else DESC)
                           else DESC)
                      | _ \<Rightarrow> DESC) \<rparr>))"

definition validateLogin :: "js_value \<Rightarrow> js_value \<Rightarrow> js_error + unit" where
  "validateLogin email password =
     (if \<not> isValidEmail email \<or> \<not> isNonEmptyString password
      then Inl (ValidationError ''Invalid email or password'') else Inr ())"

fun js_length :: "js_value \<Rightarrow> nat" where
  "js_length (JString s) = length s"
| "js_length JOther = 0"

definition validatePostContent :: "js_value \<Rightarrow> js_error + unit" where
  "validatePostContent content =
     (if \<not> isNonEmptyString content then Inl (ValidationError ''Post content cannot be empty'')
      else if js_length content > MAX_POST_LENGTH
      then Inl (ValidationError ''Post content must be less than 280 characters'')
      else Inr ())"

section \<open>Records of the store\<close>

record user =
  user_id :: string
  email :: string
  displayName :: string
  avatarUrl :: string
  passwordHash :: string
  status :: string
  failedLoginCount :: int
  lockedUntil :: "js_date option"
  createdAt :: js_date
  deletedAt :: "js_date option"

record post =
  post_id :: string
  userId :: string
  content :: string
  post_createdAt :: js_date
  post_deletedAt :: "js_date option"

record safe_user =
  su_id :: string
  su_email :: string
  su_displayName :: string
  su_avatarUrl :: string

record public_profile =
  pp_id :: string
  pp_displayName :: string
  pp_avatarUrl :: string
  pp_createdAt :: js_date

text \<open>
  The cache holds untyped values: a reader returns whatever is stored under its key. The
  author of an enriched post is the value \<^verbatim>\<open>UserModel.getById\<close> returned.
\<close>

datatype cache_value =
  CProfile public_profile
  | CProfiles "public_profile list"
  | CPosts "post list"
  | CPostWithAuthor post cache_value
  | CFeed "(post \<times> cache_value) list"

record cache_entry =
  entry_value :: cache_value
  expiresAt :: int

record state =
  users :: "user list"
  posts :: "post list"
  cache :: "(string \<times> cache_entry) list"

text \<open>
  \<^verbatim>\<open>config/env.js\<close> and the libraries the services call (bcrypt, jsonwebtoken,
  \<^verbatim>\<open>encodeURIComponent\<close>), together with the seed rows \<^verbatim>\<open>initializeData\<close> builds.
\<close>

record env =
  maxFailedLoginAttempts :: int
  accountLockoutDurationMs :: int
  cacheTTL :: int
  bcrypt_compare :: "string \<Rightarrow> string \<Rightarrow> bool"
  bcrypt_hash :: "string \<Rightarrow> string"
  jwt_sign :: "string \<Rightarrow> string \<Rightarrow> int \<Rightarrow> string"
  encodeURIComponent :: "string \<Rightarrow> string"
  seed_users :: "user list"
  seed_posts :: "post list"

definition default_maxFailedLoginAttempts :: int where
  "default_maxFailedLoginAttempts = 5"

definition default_accountLockoutDurationMs :: int where
  "default_accountLockoutDurationMs = 15 * 60 * 1000"

definition default_cacheTTL :: int where
  "default_cacheTTL = 300"

definition DUMMY_PASSWORD_HASH :: string where
  "DUMMY_PASSWORD_HASH = ''$2b$12$dummyhashfortimingatttackpreventionxxxxxxxxxxxxxxxxxxxxxx''"

definition verifyPassword :: "env \<Rightarrow> string \<Rightarrow> string \<Rightarrow> bool" where
  "verifyPassword E password hash = bcrypt_compare E password hash"

definition generateToken :: "env \<Rightarrow> int \<Rightarrow> string \<Rightarrow> string \<Rightarrow> string" where
  "generateToken E now uid mail = jwt_sign E uid mail now"

section \<open>Cache service (\<^verbatim>\<open>services/cache.service.js\<close>)\<close>

text \<open>
  The Map is an association list in insertion order. Every operation that reads the clock
  takes the reading \<open>now\<close> (milliseconds).
\<close>

definition cache_get ::
  "int \<Rightarrow> (string \<times> cache_entry) list \<Rightarrow> string
     \<Rightarrow> cache_value option \<times> (string \<times> cache_entry) list" where
  "cache_get now c key =
     (case map_of c key of
        None \<Rightarrow> (None, c)
      | Some item \<Rightarrow>
          if now > expiresAt item then (None, AList.delete key c)
          else (Some (entry_value item), c))"

definition cache_set ::
  "env \<Rightarrow> int \<Rightarrow> (string \<times> cache_entry) list \<Rightarrow> string \<Rightarrow> cache_value
     \<Rightarrow> (string \<times> cache_entry) list" where
  \<comment> \<open>no caller passes \<open>customTTL\<close>: \<open>ttlMs\<close> is \<open>this.ttl = config.cacheTTL * 1000\<close>\<close>
  "cache_set E now c key v =
     AList.update key \<lparr> entry_value = v, expiresAt = now + cacheTTL E * 1000 \<rparr> c"

definition cache_delete :: "(string \<times> cache_entry) list \<Rightarrow> string \<Rightarrow> (string \<times> cache_entry) list" where
  "cache_delete c key = AList.delete key c"

text \<open>
  \<^verbatim>\<open>deletePattern\<close> builds \<^verbatim>\<open>new RegExp(pattern.replace('*', '.*'))\<close> and deletes every key
  the expression is found in. The patterns the models build consist of literal characters,
  the dot and a postfix star, which is the fragment of regular expressions embedded here.
\<close>

fun replace_first_star :: "string \<Rightarrow> string" where
  "replace_first_star [] = []"
| "replace_first_star (c # cs) =
     (if c = CHR ''*'' then ''.*'' @ cs else c # replace_first_star cs)"

datatype re_atom = Lit char | Dot

datatype re_piece = One re_atom | Many re_atom

definition re_atom_of :: "char \<Rightarrow> re_atom" where
  "re_atom_of c = (if c = CHR ''.'' then Dot else Lit c)"

fun re_parse :: "string \<Rightarrow> re_piece list" where
  "re_parse [] = []"
| "re_parse [c] = [One (re_atom_of c)]"
| "re_parse (c # d # cs) =
     (if d = CHR ''*'' then Many (re_atom_of c) # re_parse cs
      else One (re_atom_of c) # re_parse (d # cs))"

fun atom_matches :: "re_atom \<Rightarrow> char \<Rightarrow> bool" where
  "atom_matches (Lit c) x = (x = c)"
| "atom_matches Dot x = (of_char x \<notin> {10, 13 :: nat})"

fun matches_here :: "re_piece list \<Rightarrow> string \<Rightarrow> bool" where
  "matches_here [] t = True"
| "matches_here (One a # ps) [] = False"
| "matches_here (One a # ps) (x # t) = (atom_matches a x \<and> matches_here ps t)"
| "matches_here (Many a # ps) [] = matches_here ps []"
| "matches_here (Many a # ps) (x # t) =
     (matches_here ps (x # t) \<or> (atom_matches a x \<and> matches_here (Many a # ps) t))"

fun matches_somewhere :: "re_piece list \<Rightarrow> string \<Rightarrow> bool" where
  "matches_somewhere ps [] = matches_here ps []"
| "matches_somewhere ps (x # t) = (matches_here ps (x # t) \<or> matches_somewhere ps t)"

definition regex_test :: "string \<Rightarrow> string \<Rightarrow> bool" where
  "regex_test source key = matches_somewhere (re_parse source) key"

definition deletePattern ::
  "(string \<times> cache_entry) list \<Rightarrow> string \<Rightarrow> (string \<times> cache_entry) list" where
  "deletePattern c pattern =
     filter (\<lambda>(key, item). \<not> regex_test (replace_first_star pattern) key) c"

definition cacheKeys_user :: "string \<Rightarrow> string" where
  "cacheKeys_user uid = ''user:'' @ uid"

definition cacheKeys_allUsers :: string where
  "cacheKeys_allUsers = ''users:all''"

function show_nat :: "nat \<Rightarrow> string" where
  \<comment> \<open>the decimal digits a template literal prints for a page number\<close>
  "show_nat n =
     (if n < 10 then [char_of (48 + n)] else show_nat (n div 10) @ [char_of (48 + n mod 10)])"
  by pat_completeness auto
termination
  by (relation "measure (\<lambda>n. n)") auto

declare show_nat.simps [simp del]

definition cacheKeys_userPosts :: "string \<Rightarrow> nat \<Rightarrow> string" where
  "cacheKeys_userPosts uid page = ''posts:user:'' @ uid @ '':page:'' @ show_nat page"

definition cacheKeys_post :: "string \<Rightarrow> string" where
  "cacheKeys_post pid = ''post:'' @ pid"

definition cacheKeys_feed :: "nat \<Rightarrow> string" where
  "cacheKeys_feed page = ''posts:feed:page:'' @ show_nat page"


section \<open>Database service (\<^verbatim>\<open>services/database.service.js\<close>)\<close>

text \<open>
  The two module-level arrays are the fields \<open>users\<close> and \<open>posts\<close> of the state. Every
  operation first runs \<^verbatim>\<open>initializeData\<close>, which installs the seed rows while \<open>users\<close> is
  empty. \<^verbatim>\<open>generateId()\<close> and \<^verbatim>\<open>new Date()\<close> are the arguments \<open>newId\<close> and \<open>now\<close>.
\<close>

definition initializeData :: "env \<Rightarrow> state \<Rightarrow> state" where
  "initializeData E s =
     (if length (users s) > 0 then s else s\<lparr>users := seed_users E, posts := seed_posts E\<rparr>)"

definition findUserByEmail :: "env \<Rightarrow> state \<Rightarrow> string \<Rightarrow> user option \<times> state" where
  \<comment> \<open>\<open>select\<close> copies the fields the caller reads; the copy is the row itself here\<close>
  "findUserByEmail E s mail =
     (let s1 = initializeData E s in
      (find (\<lambda>u. email u = mail \<and> deletedAt u = None) (users s1), s1))"

definition findUserById :: "env \<Rightarrow> state \<Rightarrow> string \<Rightarrow> bool \<Rightarrow> user option \<times> state" where
  \<comment> \<open>the flag is \<open>options.where?.deletedAt === null\<close>\<close>
  "findUserById E s uid where_deletedAt_null =
     (let s1 = initializeData E s in
      (find (\<lambda>u. if user_id u \<noteq> uid then False
                 else if where_deletedAt_null \<and> deletedAt u \<noteq> None then False
                 else True) (users s1), s1))"

definition findAllUsers :: "env \<Rightarrow> state \<Rightarrow> user list \<times> state" where
  "findAllUsers E s =
     (let s1 = initializeData E s in (filter (\<lambda>u. deletedAt u = None) (users s1), s1))"

record new_user =
  nu_email :: string
  nu_displayName :: string
  nu_passwordHash :: string
  nu_status :: string
  nu_avatarUrl :: string

definition createUser :: "env \<Rightarrow> int \<Rightarrow> string \<Rightarrow> state \<Rightarrow> new_user \<Rightarrow> user \<times> state" where
  "createUser E now newId s data =
     (let s1 = initializeData E s;
          newUser = \<lparr> user_id = newId, email = nu_email data, displayName = nu_displayName data,
                      avatarUrl = nu_avatarUrl data, passwordHash = nu_passwordHash data,
                      status = nu_status data, failedLoginCount = 0, lockedUntil = None,
                      createdAt = DateObj now, deletedAt = None \<rparr>
      in (newUser, s1\<lparr>users := users s1 @ [newUser]\<rparr>))"

fun findIndex :: "('a \<Rightarrow> bool) \<Rightarrow> 'a list \<Rightarrow> nat option" where
  "findIndex P [] = None"
| "findIndex P (x # xs) =
     (if P x then Some 0 else map_option Suc (findIndex P xs))"

record user_patch =
  patch_failedLoginCount :: "int option"
  patch_lockedUntil :: "js_date option option"

definition apply_patch :: "user \<Rightarrow> user_patch \<Rightarrow> user" where
  \<comment> \<open>\<open>{ ...users[index], ...data }\<close>\<close>
  "apply_patch u data =
     u\<lparr> failedLoginCount :=
          (case patch_failedLoginCount data of None \<Rightarrow> failedLoginCount u | Some n \<Rightarrow> n),
        lockedUntil :=
          (case patch_lockedUntil data of None \<Rightarrow> lockedUntil u | Some l \<Rightarrow> l) \<rparr>"

definition updateUser :: "env \<Rightarrow> state \<Rightarrow> string \<Rightarrow> user_patch \<Rightarrow> user option \<times> state" where
  "updateUser E s uid data =
     (let s1 = initializeData E s in
      case findIndex (\<lambda>u. user_id u = uid) (users s1) of
        None \<Rightarrow> (None, s1)
      | Some index \<Rightarrow>
          (let u' = apply_patch (users s1 ! index) data
           in (Some u', s1\<lparr>users := (users s1)[index := u']\<rparr>)))"

record find_options =
  where_userId :: "string option"
  where_deletedAt_null :: bool
  orderBy_createdAt :: "sort_order option"
  opt_limit :: "int option"
  opt_offset :: "int option"

definition js_slice :: "'a list \<Rightarrow> int \<Rightarrow> int \<Rightarrow> 'a list" where
  \<comment> \<open>\<open>Array.prototype.slice(start, end)\<close>\<close>
  "js_slice xs start fin =
     (let n = int (length xs);
          k = (if start < 0 then max (n + start) 0 else min start n);
          e = (if fin < 0 then max (n + fin) 0 else min fin n)
      in take (nat (e - k)) (drop (nat k) xs))"

definition sort_posts :: "sort_order \<Rightarrow> post list \<Rightarrow> js_error + post list" where
  \<comment> \<open>the comparator calls \<open>createdAt.getTime()\<close> on both arguments; it runs as soon as there
      are two rows, and a row whose \<open>createdAt\<close> is a string makes it throw\<close>
  "sort_posts ord ps =
     (if length ps \<ge> 2 \<and> list_ex (\<lambda>p. \<not> is_DateObj (post_createdAt p)) ps then Inl TypeError
      else Inr (sort_key (\<lambda>p. case ord of ASC \<Rightarrow> time_value (post_createdAt p)
                                          | DESC \<Rightarrow> - time_value (post_createdAt p)) ps))"

definition findPosts :: "env \<Rightarrow> state \<Rightarrow> find_options \<Rightarrow> (js_error + post list) \<times> state" where
  "findPosts E s options =
     (let s1 = initializeData E s;
          result = posts s1;
          result = (case where_userId options of
                      Some uid \<Rightarrow> if uid \<noteq> [] then filter (\<lambda>p. userId p = uid) result else result
                    | None \<Rightarrow> result);
          result = (if where_deletedAt_null options
                    then filter (\<lambda>p. post_deletedAt p = None) result else result);
          sorted = (case orderBy_createdAt options of
                      Some ord \<Rightarrow> sort_posts ord result
                    | None \<Rightarrow> Inr result);
          off = (case opt_offset options of Some n \<Rightarrow> n | None \<Rightarrow> 0);
          lim = (case opt_limit options of Some n \<Rightarrow> n | None \<Rightarrow> 20)
      in case sorted of
           Inl e \<Rightarrow> (Inl e, s1)
         | Inr result \<Rightarrow> (Inr (js_slice result off (off + lim)), s1))"

definition findPostById :: "env \<Rightarrow> state \<Rightarrow> string \<Rightarrow> post option \<times> state" where
  "findPostById E s pid =
     (let s1 = initializeData E s in (find (\<lambda>p. post_id p = pid) (posts s1), s1))"

record new_post =
  np_userId :: string
  np_content :: string

definition createPost :: "env \<Rightarrow> int \<Rightarrow> string \<Rightarrow> state \<Rightarrow> new_post \<Rightarrow> post \<times> state" where
  "createPost E now newId s data =
     (let s1 = initializeData E s;
          newPost = \<lparr> post_id = newId, userId = np_userId data, content = np_content data,
                      post_createdAt = DateObj now, post_deletedAt = None \<rparr>
      in (newPost, s1\<lparr>posts := posts s1 @ [newPost]\<rparr>))"

definition softDeletePost :: "env \<Rightarrow> int \<Rightarrow> state \<Rightarrow> string \<Rightarrow> state" where
  "softDeletePost E now s pid =
     (let s1 = initializeData E s in
      case findIndex (\<lambda>p. post_id p = pid) (posts s1) of
        None \<Rightarrow> s1
      | Some index \<Rightarrow>
          s1\<lparr>posts := (posts s1)[index := (posts s1 ! index)\<lparr>post_deletedAt := Some (DateObj now)\<rparr>]\<rparr>)"

text \<open>
  \<^verbatim>\<open>JSON.parse(JSON.stringify(rows))\<close>, the snapshot of \<^verbatim>\<open>DB.transaction\<close>: strings, numbers
  and null come back as they were, a Date comes back as its ISO string.
\<close>

definition json_date :: "js_date \<Rightarrow> js_date" where
  "json_date d = DateStr (time_value d)"

definition json_user :: "user \<Rightarrow> user" where
  "json_user u =
     u\<lparr> lockedUntil := map_option json_date (lockedUntil u),
        createdAt := json_date (createdAt u),
        deletedAt := map_option json_date (deletedAt u) \<rparr>"

definition json_post :: "post \<Rightarrow> post" where
  "json_post p =
     p\<lparr> post_createdAt := json_date (post_createdAt p),
        post_deletedAt := map_option json_date (post_deletedAt p) \<rparr>"

text \<open>The write handle \<open>tx\<close> of a transaction: its four functions.\<close>

definition tx_userExists :: "state \<Rightarrow> string \<Rightarrow> bool" where
  "tx_userExists s uid =
     list_ex (\<lambda>u. user_id u = uid \<and> deletedAt u = None \<and> status u = ''ACTIVE'') (users s)"

definition tx_insertPost :: "env \<Rightarrow> int \<Rightarrow> string \<Rightarrow> state \<Rightarrow> new_post \<Rightarrow> post \<times> state" where
  "tx_insertPost E now newId s data = createPost E now newId s data"

definition tx_findPostByIdForUpdate :: "env \<Rightarrow> state \<Rightarrow> string \<Rightarrow> post option \<times> state" where
  "tx_findPostByIdForUpdate E s pid = findPostById E s pid"

definition tx_softDeletePost :: "env \<Rightarrow> int \<Rightarrow> state \<Rightarrow> string \<Rightarrow> state" where
  "tx_softDeletePost E now s pid = softDeletePost E now s pid"

definition transaction ::
  "env \<Rightarrow> (state \<Rightarrow> (js_error + 'a) \<times> state) \<Rightarrow> state \<Rightarrow> (js_error + 'a) \<times> state" where
  "transaction E callback s =
     (let s0 = initializeData E s;
          postSnapshot = map json_post (posts s0);
          userSnapshot = map json_user (users s0)
      in case callback s0 of
           (Inr r, s1) \<Rightarrow> (Inr r, s1)
         | (Inl error, s1) \<Rightarrow> (Inl error, s1\<lparr>posts := postSnapshot, users := userSnapshot\<rparr>))"


section \<open>User model (\<^verbatim>\<open>models/User.model.js\<close>)\<close>

text \<open>
  A model operation takes one clock reading \<open>now\<close>, which stands for every
  \<^verbatim>\<open>new Date()\<close> and \<^verbatim>\<open>Date.now()\<close> of the call. Ids are strings (route parameters and
  token payloads).
\<close>

definition toSafeUser :: "user \<Rightarrow> safe_user" where
  "toSafeUser u =
     \<lparr> su_id = user_id u, su_email = email u, su_displayName = displayName u,
       su_avatarUrl = avatarUrl u \<rparr>"

definition toPublicProfile :: "user \<Rightarrow> public_profile" where
  "toPublicProfile u =
     \<lparr> pp_id = user_id u, pp_displayName = displayName u, pp_avatarUrl = avatarUrl u,
       pp_createdAt = createdAt u \<rparr>"

definition recordFailedLogin :: "env \<Rightarrow> int \<Rightarrow> state \<Rightarrow> string \<Rightarrow> state" where
  "recordFailedLogin E now s uid =
     (case findUserById E s uid False of
        (None, s1) \<Rightarrow> s1
      | (Some u, s1) \<Rightarrow>
          (let newCount = failedLoginCount u + 1;
               updates =
                 (if newCount \<ge> maxFailedLoginAttempts E
                  then \<lparr> patch_failedLoginCount = Some newCount,
                         patch_lockedUntil =
                           Some (Some (DateObj (now + accountLockoutDurationMs E))) \<rparr>
                  else \<lparr> patch_failedLoginCount = Some newCount, patch_lockedUntil = None \<rparr>)
           in snd (updateUser E s1 uid updates)))"

definition resetFailedLogin :: "env \<Rightarrow> state \<Rightarrow> string \<Rightarrow> state" where
  "resetFailedLogin E s uid =
     snd (updateUser E s uid \<lparr> patch_failedLoginCount = Some 0, patch_lockedUntil = Some None \<rparr>)"

fun js_string :: "js_value \<Rightarrow> string" where
  \<comment> \<open>the string behind a value that passed a \<open>typeof\<close> check\<close>
  "js_string (JString s) = s"
| "js_string JOther = []"

definition is_locked :: "int \<Rightarrow> user option \<Rightarrow> bool" where
  \<comment> \<open>\<open>user?.lockedUntil && new Date(user.lockedUntil) > new Date()\<close>\<close>
  "is_locked now user =
     (case user of
        None \<Rightarrow> False
      | Some u \<Rightarrow> (case lockedUntil u of None \<Rightarrow> False | Some d \<Rightarrow> time_value d > now))"

definition authenticate ::
  "env \<Rightarrow> int \<Rightarrow> state \<Rightarrow> js_value \<Rightarrow> js_value \<Rightarrow> (js_error + safe_user \<times> string) \<times> state" where
  "authenticate E now s mail password =
     (case validateLogin mail password of
        Inl e \<Rightarrow> (Inl e, s)
      | Inr _ \<Rightarrow>
          (let normalizedEmail = trim (toLowerCase (js_string mail)) in
           case findUserByEmail E s normalizedEmail of
             (user, s1) \<Rightarrow>
               (let hash = (case user of Some u \<Rightarrow> passwordHash u | None \<Rightarrow> DUMMY_PASSWORD_HASH);
                    isValidPassword = verifyPassword E (js_string password) hash
                in if is_locked now user then (Inl AccountLockedError, s1)
                   else (case user of
                           None \<Rightarrow> (Inl InvalidCredentialsError, s1)
                         | Some u \<Rightarrow>
                             if status u \<noteq> ''ACTIVE'' \<or> \<not> isValidPassword
                             then (Inl InvalidCredentialsError,
                                   recordFailedLogin E now s1 (user_id u))
                             else (Inr (toSafeUser u, generateToken E now (user_id u) (email u)),
                                   resetFailedLogin E s1 (user_id u))))))"

definition validateRegistration :: "js_value \<Rightarrow> js_value \<Rightarrow> js_value \<Rightarrow> js_error + unit" where
  "validateRegistration mail password name =
     (let errors =
            (if \<not> isValidEmail mail then [''Invalid email format''] else []) @
            (if \<not> isNonEmptyString password \<or> js_length password < MIN_PASSWORD_LENGTH
             then [''Password must be at least 8 characters''] else []) @
            (if \<not> isNonEmptyString name \<or> js_length name < MIN_DISPLAY_NAME_LENGTH
             then [''Display name must be at least 2 characters''] else [])
      in if length errors > 0 then Inl (ValidationError (join '', '' errors)) else Inr ())"

definition register ::
  "env \<Rightarrow> int \<Rightarrow> string \<Rightarrow> state \<Rightarrow> js_value \<Rightarrow> js_value \<Rightarrow> js_value
     \<Rightarrow> (js_error + safe_user \<times> string) \<times> state" where
  "register E now newId s mail password name =
     (case validateRegistration mail password name of
        Inl e \<Rightarrow> (Inl e, s)
      | Inr _ \<Rightarrow>
          (let normalizedEmail = trim (toLowerCase (js_string mail)) in
           case findUserByEmail E s normalizedEmail of
             (Some existingUser, s1) \<Rightarrow> (Inl (ConflictError ''Email already registered''), s1)
           | (None, s1) \<Rightarrow>
               (case createUser E now newId s1
                       \<lparr> nu_email = normalizedEmail,
                         nu_displayName = trim (js_string name),
                         nu_passwordHash = bcrypt_hash E (js_string password),
                         nu_status = ''ACTIVE'',
                         nu_avatarUrl = ''https://api.dicebear.com/7.x/avataaars/svg?seed='' @
                                        encodeURIComponent E (js_string name) \<rparr> of
                  (u, s2) \<Rightarrow>
                    (Inr (toSafeUser u, generateToken E now (user_id u) (email u)),
                     s2\<lparr>cache := cache_delete (cache s2) cacheKeys_allUsers\<rparr>))))"

definition UserModel_getById ::
  "env \<Rightarrow> int \<Rightarrow> state \<Rightarrow> string \<Rightarrow> (js_error + cache_value) \<times> state" where
  "UserModel_getById E now s uid =
     (if \<not> isValidId (JString uid) then (Inl (ValidationError ''Invalid user ID''), s)
      else
        (let cacheKey = cacheKeys_user uid in
         case cache_get now (cache s) cacheKey of
           (Some cached, c1) \<Rightarrow> (Inr cached, s\<lparr>cache := c1\<rparr>)
         | (None, c1) \<Rightarrow>
             (case findUserById E (s\<lparr>cache := c1\<rparr>) uid True of
                (None, s1) \<Rightarrow> (Inl (NotFoundError ''User''), s1)
              | (Some u, s1) \<Rightarrow>
                  (let profile = CProfile (toPublicProfile u)
                   in (Inr profile, s1\<lparr>cache := cache_set E now (cache s1) cacheKey profile\<rparr>)))))"

definition UserModel_getAll :: "env \<Rightarrow> int \<Rightarrow> state \<Rightarrow> (js_error + cache_value) \<times> state" where
  "UserModel_getAll E now s =
     (let cacheKey = cacheKeys_allUsers in
      case cache_get now (cache s) cacheKey of
        (Some cached, c1) \<Rightarrow> (Inr cached, s\<lparr>cache := c1\<rparr>)
      | (None, c1) \<Rightarrow>
          (case findAllUsers E (s\<lparr>cache := c1\<rparr>) of
             (us, s1) \<Rightarrow>
               (let profiles = CProfiles (map toPublicProfile us)
                in (Inr profiles, s1\<lparr>cache := cache_set E now (cache s1) cacheKey profiles\<rparr>))))"

section \<open>Post model (\<^verbatim>\<open>models/Post.model.js\<close>)\<close>

definition PostModel_getByUserId ::
  "env \<Rightarrow> int \<Rightarrow> state \<Rightarrow> string \<Rightarrow> js_number option \<Rightarrow> js_number option \<Rightarrow> js_value option
     \<Rightarrow> (js_error + cache_value) \<times> state" where
  "PostModel_getByUserId E now s uid lim off ord =
     (if \<not> isValidId (JString uid) then (Inl (ValidationError ''Invalid userId''), s)
      else
        (case validatePagination lim off ord of
           Inl e \<Rightarrow> (Inl e, s)
         | Inr pg \<Rightarrow>
             (let page = nat (offset pg div limit pg);
                  cacheKey = cacheKeys_userPosts uid page in
              case cache_get now (cache s) cacheKey of
                (Some cached, c1) \<Rightarrow> (Inr cached, s\<lparr>cache := c1\<rparr>)
              | (None, c1) \<Rightarrow>
                  (case findPosts E (s\<lparr>cache := c1\<rparr>)
                          \<lparr> where_userId = Some uid, where_deletedAt_null = True,
                            orderBy_createdAt = Some (order pg), opt_limit = Some (limit pg),
                            opt_offset = Some (offset pg) \<rparr> of
                     (Inl e, s1) \<Rightarrow> (Inl e, s1)
                   | (Inr ps, s1) \<Rightarrow>
                       (Inr (CPosts ps),
                        s1\<lparr>cache := cache_set E now (cache s1) cacheKey (CPosts ps)\<rparr>)))))"

text \<open>
  The feed looks every author up through \<^verbatim>\<open>UserModel.getById\<close> and drops the posts whose
  lookup throws. The lookups of \<^verbatim>\<open>Promise.all\<close> are run one after the other here; they read
  the same rows and write the same cache entries in any interleaving.
\<close>

fun with_authors ::
  "env \<Rightarrow> int \<Rightarrow> post list \<Rightarrow> state \<Rightarrow> (post \<times> cache_value) list \<times> state" where
  "with_authors E now [] s = ([], s)"
| "with_authors E now (p # ps) s =
     (case UserModel_getById E now s (userId p) of
        (r, s1) \<Rightarrow>
          (case with_authors E now ps s1 of
             (rest, s2) \<Rightarrow>
               (case r of Inl e \<Rightarrow> (rest, s2) | Inr author \<Rightarrow> ((p, author) # rest, s2))))"

definition PostModel_getAllWithAuthors ::
  "env \<Rightarrow> int \<Rightarrow> state \<Rightarrow> js_number option \<Rightarrow> js_number option \<Rightarrow> js_value option
     \<Rightarrow> (js_error + cache_value) \<times> state" where
  "PostModel_getAllWithAuthors E now s lim off ord =
     (case validatePagination lim off ord of
        Inl e \<Rightarrow> (Inl e, s)
      | Inr pg \<Rightarrow>
          (let page = nat (offset pg div limit pg);
               cacheKey = cacheKeys_feed page in
           case cache_get now (cache s) cacheKey of
             (Some cached, c1) \<Rightarrow> (Inr cached, s\<lparr>cache := c1\<rparr>)
           | (None, c1) \<Rightarrow>
               (case findPosts E (s\<lparr>cache := c1\<rparr>)
                       \<lparr> where_userId = None, where_deletedAt_null = True,
                         orderBy_createdAt = Some (order pg), opt_limit = Some (limit pg),
                         opt_offset = Some (offset pg) \<rparr> of
                  (Inl e, s1) \<Rightarrow> (Inl e, s1)
                | (Inr ps, s1) \<Rightarrow>
                    (case with_authors E now ps s1 of
                       (validPosts, s2) \<Rightarrow>
                         (Inr (CFeed validPosts),
                          s2\<lparr>cache := cache_set E now (cache s2) cacheKey (CFeed validPosts)\<rparr>)))))"

definition PostModel_getById ::
  "env \<Rightarrow> int \<Rightarrow> state \<Rightarrow> string \<Rightarrow> (js_error + cache_value) \<times> state" where
  "PostModel_getById E now s pid =
     (if \<not> isValidId (JString pid) then (Inl (ValidationError ''Invalid post ID''), s)
      else
        (let cacheKey = cacheKeys_post pid in
         case cache_get now (cache s) cacheKey of
           (Some cached, c1) \<Rightarrow> (Inr cached, s\<lparr>cache := c1\<rparr>)
         | (None, c1) \<Rightarrow>
             (case findPostById E (s\<lparr>cache := c1\<rparr>) pid of
                (None, s1) \<Rightarrow> (Inl (NotFoundError ''Post''), s1)
              | (Some p, s1) \<Rightarrow>
                  if post_deletedAt p \<noteq> None then (Inl (NotFoundError ''Post''), s1)
                  else
                    (case UserModel_getById E now s1 (userId p) of
                       (Inl e, s2) \<Rightarrow> (Inl e, s2)
                     | (Inr author, s2) \<Rightarrow>
                         (let postWithAuthor = CPostWithAuthor p author
                          in (Inr postWithAuthor,
                              s2\<lparr>cache := cache_set E now (cache s2) cacheKey postWithAuthor\<rparr>))))))"

definition create ::
  "env \<Rightarrow> int \<Rightarrow> string \<Rightarrow> state \<Rightarrow> string \<Rightarrow> js_value \<Rightarrow> (js_error + post) \<times> state" where
  "create E now newId s uid body =
     (if \<not> isValidId (JString uid) then (Inl (ValidationError ''Invalid userId''), s)
      else
        (case validatePostContent body of
           Inl e \<Rightarrow> (Inl e, s)
         | Inr _ \<Rightarrow>
             (let sanitizedContent = sanitizeText body in
              case transaction E
                     (\<lambda>t. if \<not> tx_userExists t uid then (Inl (NotFoundError ''User''), t)
                          else (case tx_insertPost E now newId t
                                       \<lparr> np_userId = uid, np_content = sanitizedContent \<rparr> of
                                  (newPost, t') \<Rightarrow> (Inr newPost, t'))) s of
                (Inl e, s1) \<Rightarrow> (Inl e, s1)
              | (Inr p, s1) \<Rightarrow>
                  (Inr p,
                   s1\<lparr>cache := deletePattern
                                  (deletePattern (cache s1) (''posts:user:'' @ uid @ '':*''))
                                  ''posts:feed:*''\<rparr>))))"

definition deleteOwned ::
  "env \<Rightarrow> int \<Rightarrow> state \<Rightarrow> string \<Rightarrow> string \<Rightarrow> (js_error + bool) \<times> state" where
  "deleteOwned E now s pid uid =
     (if \<not> isValidId (JString pid) \<or> \<not> isValidId (JString uid)
      then (Inl (ValidationError ''Invalid post or user ID''), s)
      else
        (case transaction E
                (\<lambda>t. case tx_findPostByIdForUpdate E t pid of
                        (None, t1) \<Rightarrow> (Inl (NotFoundError ''Post''), t1)
                      | (Some p, t1) \<Rightarrow>
                          if post_deletedAt p \<noteq> None then (Inl (NotFoundError ''Post''), t1)
                          else if userId p \<noteq> uid
                          then (Inl (ForbiddenError ''You can only delete your own posts''), t1)
                          else (Inr True, tx_softDeletePost E now t1 pid)) s of
           (Inl e, s1) \<Rightarrow> (Inl e, s1)
         | (Inr result, s1) \<Rightarrow>
             (Inr result,
              s1\<lparr>cache := deletePattern
                             (deletePattern (cache_delete (cache s1) (cacheKeys_post pid))
                                (''posts:user:'' @ uid @ '':*''))
                             ''posts:feed:*''\<rparr>)))"


section \<open>A client and sample rows\<close>


text \<open>Rows in the style of the seed data, with a toy password hash, for concrete runs.\<close>

definition alice_id :: string where "alice_id = ''11111111-1111-4111-8111-111111111111''"
definition bob_id :: string where "bob_id = ''22222222-2222-4222-8222-222222222222''"
definition post1_id :: string where "post1_id = ''aaaaaaaa-aaaa-4aaa-8aaa-aaaaaaaaaaaa''"
definition post2_id :: string where "post2_id = ''bbbbbbbb-bbbb-4bbb-8bbb-bbbbbbbbbbbb''"

definition alice :: user where
  "alice = \<lparr> user_id = alice_id, email = ''alice@example.com'', displayName = ''Alice Chen'',
             avatarUrl = ''https://api.dicebear.com/7.x/avataaars/svg?seed=alice'',
             passwordHash = ''bcrypt:password123'', status = ''ACTIVE'', failedLoginCount = 0,
             lockedUntil = None, createdAt = DateObj 1000, deletedAt = None \<rparr>"

definition bob :: user where
  "bob = \<lparr> user_id = bob_id, email = ''bob@example.com'', displayName = ''Bob Smith'',
           avatarUrl = ''https://api.dicebear.com/7.x/avataaars/svg?seed=bob'',
           passwordHash = ''bcrypt:password123'', status = ''ACTIVE'', failedLoginCount = 0,
           lockedUntil = None, createdAt = DateObj 2000, deletedAt = None \<rparr>"

definition post1 :: post where
  "post1 = \<lparr> post_id = post1_id, userId = alice_id, content = ''Just deployed my first microservice!'',
             post_createdAt = DateObj 5000, post_deletedAt = None \<rparr>"

definition post2 :: post where
  "post2 = \<lparr> post_id = post2_id, userId = bob_id, content = ''TypeScript + React'',
             post_createdAt = DateObj 3000, post_deletedAt = None \<rparr>"

definition sample_env :: env where
  "sample_env =
     \<lparr> maxFailedLoginAttempts = default_maxFailedLoginAttempts,
       accountLockoutDurationMs = default_accountLockoutDurationMs,
       cacheTTL = default_cacheTTL,
       bcrypt_compare = (\<lambda>password hash. hash = ''bcrypt:'' @ password),
       bcrypt_hash = (\<lambda>password. ''bcrypt:'' @ password),
       jwt_sign = (\<lambda>uid mail t. ''jwt:'' @ uid),
       encodeURIComponent = (\<lambda>s. s),
       seed_users = [alice, bob],
       seed_posts = [post1, post2] \<rparr>"

definition sample_state :: state where
  "sample_state = \<lparr> users = [alice, bob], posts = [post1, post2], cache = [] \<rparr>"

text \<open>
  The row \<^verbatim>\<open>authenticate\<close> looks up for an email in a store that has been seeded, and the
  rows \<^verbatim>\<open>recordFailedLogin\<close> and \<^verbatim>\<open>resetFailedLogin\<close> write back for it.
\<close>

definition stored_account :: "state \<Rightarrow> js_value \<Rightarrow> user option" where
  "stored_account s mail =
     find (\<lambda>x. email x = trim (toLowerCase (js_string mail)) \<and> deletedAt x = None) (users s)"




definition bob_locked :: user where
  "bob_locked = bob\<lparr> failedLoginCount := 5, lockedUntil := Some (DateObj 900005) \<rparr>"

definition locked_state :: state where
  "locked_state = \<lparr> users = [alice, bob_locked], posts = [post1, post2], cache = [] \<rparr>"

definition warm_state :: state where
  "warm_state =
     sample_state\<lparr>cache := [(cacheKeys_user alice_id,
        \<lparr> entry_value = CProfile (toPublicProfile alice), expiresAt = 301000 \<rparr>)]\<rparr>"

definition rolled_back_state :: state where
  "rolled_back_state =
     \<lparr> users = map json_user [alice, bob], posts = map json_post [post1, post2], cache = [] \<rparr>"

definition new_post_id :: string where
  "new_post_id = ''cccccccc-cccc-4ccc-8ccc-cccccccccccc''"

definition carol_id :: string where
  "carol_id = ''33333333-3333-4333-8333-333333333333''"

definition busy_state :: state where
  "busy_state =
     sample_state\<lparr>cache :=
       [(''posts:feed:page:0'',
           \<lparr> entry_value = CFeed [(post1, CProfile (toPublicProfile alice))],
             expiresAt = 400000 \<rparr>),
        (''posts:user:'' @ alice_id @ '':page:0'',
           \<lparr> entry_value = CPosts [post1], expiresAt = 400000 \<rparr>),
        (''post:'' @ post1_id,
           \<lparr> entry_value = CPostWithAuthor post1 (CProfile (toPublicProfile alice)),
             expiresAt = 400000 \<rparr>),
        (''users:all'',
           \<lparr> entry_value = CProfiles [toPublicProfile alice, toPublicProfile bob],
             expiresAt = 400000 \<rparr>)]\<rparr>"

text \<open>Whether a value returned by a read shows the post with the given id.\<close>

fun mentions_post :: "string \<Rightarrow> cache_value \<Rightarrow> bool" where
  "mentions_post pid (CPosts ps) = (pid \<in> post_id ` set ps)"
| "mentions_post pid (CFeed xs) = (pid \<in> (post_id \<circ> fst) ` set xs)"
| "mentions_post pid (CPostWithAuthor p a) = (post_id p = pid)"
| "mentions_post pid (CProfile a) = False"
| "mentions_post pid (CProfiles as) = False"

section \<open>Pagination\<close>





section \<open>Login input\<close>

lemma not_an_email: "\<not> isValidEmail (JString ''not-an-email'')"
  by code_simp

text \<open>
  C7, on the code: when the email is malformed or the password is not a non-empty string,
  \<^verbatim>\<open>authenticate\<close> stops in \<^verbatim>\<open>validateLogin\<close> before any lookup (the state is returned
  untouched, not even seeded), but the error it throws is a ValidationError with code
  VALIDATION_ERROR and status 400, not the InvalidCredentials error (INVALID_CREDENTIALS,
  401) that every other failed login gets.
\<close>

theorem authenticate_malformed_input:
  assumes "\<not> isValidEmail mail \<or> \<not> isNonEmptyString password"
  shows "authenticate E now s mail password =
           (Inl (ValidationError ''Invalid email or password''), s) \<and>
         ValidationError ''Invalid email or password'' \<noteq> InvalidCredentialsError \<and>
         code (ValidationError ''Invalid email or password'') = ''VALIDATION_ERROR'' \<and>
         statusCode (ValidationError ''Invalid email or password'') = 400 \<and>
         code InvalidCredentialsError = ''INVALID_CREDENTIALS'' \<and>
         statusCode InvalidCredentialsError = 401"
  using assms
  by (auto simp add: authenticate_def validateLogin_def ValidationError_def
        InvalidCredentialsError_def)

theorem authenticate_malformed_input_witness:
  "authenticate sample_env 0 sample_state (JString ''not-an-email'') (JString ''secret'') =
     (Inl (AppError ValidationErrorC ''Invalid email or password'' ''VALIDATION_ERROR'' 400),
      sample_state)"
  using authenticate_malformed_input
          [of "JString ''not-an-email''" "JString ''secret''" sample_env 0 sample_state]
        not_an_email
  by (simp add: ValidationError_def)
section \<open>Lockout\<close>

lemma initializeData_nonempty: "users s \<noteq> [] \<Longrightarrow> initializeData E s = s"
  by (simp add: initializeData_def)

lemma find_users_nonempty: "find P (users s) = Some u \<Longrightarrow> users s \<noteq> []"
  by auto

lemma findIndex_Some:
  "findIndex P xs = Some i \<Longrightarrow> i < length xs \<and> P (xs ! i) \<and> find P xs = Some (xs ! i)"
  by (induction xs arbitrary: i) (auto split: if_splits)

lemma findIndex_None: "findIndex P xs = None \<Longrightarrow> find P xs = None"
  by (induction xs) (auto split: if_splits)

lemma find_first_by_key:
  assumes "find P xs = Some u" and "distinct (map f xs)" and "f u' = f u" and "P u'"
  shows "\<exists>i. findIndex (\<lambda>x. f x = f u) xs = Some i \<and> xs ! i = u \<and>
             find P (xs[i := u']) = Some u' \<and> map f (xs[i := u']) = map f xs"
  using assms
proof (induction xs)
  case Nil
  then show ?case by simp
next
  case (Cons x xs)
  show ?case
  proof (cases "P x")
    case True
    with Cons.prems show ?thesis by simp
  next
    case False
    with Cons.prems have fu: "find P xs = Some u" and d: "distinct (map f xs)"
      and nx: "f x \<notin> f ` set xs"
      by auto
    from fu have "u \<in> set xs"
      by (auto simp: find_Some_iff)
    with nx have ne: "f x \<noteq> f u" by auto
    from Cons.IH [OF fu d Cons.prems(3) Cons.prems(4)]
    obtain i where i: "findIndex (\<lambda>x. f x = f u) xs = Some i" "xs ! i = u"
      "find P (xs[i := u']) = Some u'" "map f (xs[i := u']) = map f xs"
      by blast
    show ?thesis
      using i ne False by (intro exI [of _ "Suc i"]) simp
  qed
qed






lemma authenticate_found:
  assumes "isValidEmail mail" and "isNonEmptyString password"
    and "find (\<lambda>x. email x = trim (toLowerCase (js_string mail)) \<and> deletedAt x = None) (users s) = Some u"
  shows "authenticate E now s mail password =
     (if is_locked now (Some u) then (Inl AccountLockedError, s)
      else if status u \<noteq> ''ACTIVE'' \<or> \<not> bcrypt_compare E (js_string password) (passwordHash u)
      then (Inl InvalidCredentialsError, recordFailedLogin E now s (user_id u))
      else (Inr (toSafeUser u, generateToken E now (user_id u) (email u)),
            resetFailedLogin E s (user_id u)))"
proof -
  have ne: "users s \<noteq> []" using assms(3) by auto
  show ?thesis
    using assms ne
    by (simp add: authenticate_def validateLogin_def findUserByEmail_def
        initializeData_nonempty verifyPassword_def Let_def)
qed

lemma authenticate_unknown:
  assumes "isValidEmail mail" and "isNonEmptyString password"
    and "fst (findUserByEmail E s (trim (toLowerCase (js_string mail)))) = None"
  shows "authenticate E now s mail password = (Inl InvalidCredentialsError, initializeData E s)"
  using assms
  by (simp add: authenticate_def validateLogin_def findUserByEmail_def is_locked_def Let_def)








lemma alice_mail_valid: "isValidEmail (JString ''alice@example.com'')"
  by code_simp


lemma nobody_mail_valid: "isValidEmail (JString ''nobody@example.com'')"
  by code_simp

lemma alice_stored: "stored_account sample_state (JString ''alice@example.com'') = Some alice"
  by code_simp


lemma nobody_not_stored:
  "fst (findUserByEmail sample_env locked_state
          (trim (toLowerCase (js_string (JString ''nobody@example.com''))))) = None"
  by code_simp













text \<open>
  C2, as the code has it: for a well-formed email and a non-blank password, an email with
  no stored record and the email of a stored account that is not locked at the moment, with
  a password that does not verify, get the same InvalidCredentials error: same class, same
  message, same code INVALID_CREDENTIALS, same status 401.
\<close>

theorem unknown_email_same_error_as_wrong_password:
  assumes "isValidEmail mail1" and "isValidEmail mail2" and "isNonEmptyString password"
    and "fst (findUserByEmail E s (trim (toLowerCase (js_string mail1)))) = None"
    and "stored_account s mail2 = Some u"
    and "\<not> is_locked now (Some u)"
    and "\<not> bcrypt_compare E (js_string password) (passwordHash u)"
  shows "fst (authenticate E now s mail1 password) = Inl InvalidCredentialsError \<and>
         fst (authenticate E now s mail2 password) = Inl InvalidCredentialsError \<and>
         InvalidCredentialsError =
           AppError InvalidCredentialsErrorC ''Invalid email or password''
             ''INVALID_CREDENTIALS'' 401"
proof -
  have f: "find (\<lambda>x. email x = trim (toLowerCase (js_string mail2)) \<and> deletedAt x = None)
             (users s) = Some u"
    using assms(5) by (simp add: stored_account_def)
  show ?thesis
    using authenticate_unknown [OF assms(1) assms(3) assms(4)]
      authenticate_found [OF assms(2) assms(3) f] assms(6,7)
    by (simp add: InvalidCredentialsError_def)
qed

lemma wrong_for_alice:
  "isNonEmptyString (JString ''wrong'') \<and> \<not> is_locked 1000 (Some alice) \<and>
   \<not> bcrypt_compare sample_env (js_string (JString ''wrong'')) (passwordHash alice)"
  by code_simp

lemma nobody_not_in_sample:
  "fst (findUserByEmail sample_env sample_state
          (trim (toLowerCase (js_string (JString ''nobody@example.com''))))) = None"
  by code_simp

theorem unknown_email_same_error_as_wrong_password_witness:
  "fst (authenticate sample_env 1000 sample_state (JString ''nobody@example.com'')
          (JString ''wrong'')) =
     Inl (AppError InvalidCredentialsErrorC ''Invalid email or password'' ''INVALID_CREDENTIALS'' 401) \<and>
   fst (authenticate sample_env 1000 sample_state (JString ''alice@example.com'')
          (JString ''wrong'')) =
     Inl (AppError InvalidCredentialsErrorC ''Invalid email or password'' ''INVALID_CREDENTIALS'' 401)"
  using unknown_email_same_error_as_wrong_password
          [OF nobody_mail_valid alice_mail_valid conjunct1 [OF wrong_for_alice]
              nobody_not_in_sample alice_stored
              conjunct1 [OF conjunct2 [OF wrong_for_alice]]
              conjunct2 [OF conjunct2 [OF wrong_for_alice]]]
  by simp

text \<open>
  The claim C2 as it was written covers every existing active user. An ACTIVE account that
  is locked answers a wrong password with AccountLocked, which an unknown email never
  gets.
\<close>

theorem locked_account_reveals_itself:
  "fst (authenticate sample_env 1000 locked_state (JString ''nobody@example.com'')
          (JString ''wrong'')) = Inl InvalidCredentialsError \<and>
   fst (authenticate sample_env 1000 locked_state (JString ''bob@example.com'')
          (JString ''wrong'')) = Inl AccountLockedError \<and>
   AccountLockedError \<noteq> InvalidCredentialsError \<and>
   status bob_locked = ''ACTIVE'' \<and>
   \<not> bcrypt_compare sample_env ''wrong'' (passwordHash bob_locked)"
  by code_simp
section \<open>Cache-aside reads\<close>

lemma cache_get_hit_iff:
  "(\<exists>v. fst (cache_get now c key) = Some v) \<longleftrightarrow>
   (\<exists>item. map_of c key = Some item \<and> now \<le> expiresAt item)"
  by (auto simp: cache_get_def split: option.splits)

lemma initializeData_cache:
  "initializeData E (s\<lparr>cache := c\<rparr>) = (initializeData E s)\<lparr>cache := c\<rparr>"
  "cache (initializeData E s) = cache s"
  by (simp_all add: initializeData_def)

lemma findUserById_pair:
  "findUserById E s uid b = (fst (findUserById E s uid b), initializeData E s)"
  by (simp add: findUserById_def Let_def)

lemma findUserById_cache:
  "fst (findUserById E (s\<lparr>cache := c\<rparr>) uid b) = fst (findUserById E s uid b)"
  by (simp add: findUserById_def Let_def initializeData_def)

lemma UserModel_getById_hit:
  assumes "isValidId (JString uid)"
    and "map_of (cache s) (cacheKeys_user uid) = Some item" and "now \<le> expiresAt item"
  shows "UserModel_getById E now s uid = (Inr (entry_value item), s)"
  using assms by (simp add: UserModel_getById_def cache_get_def Let_def)

lemma UserModel_getById_miss:
  assumes "isValidId (JString uid)"
    and "fst (cache_get now (cache s) (cacheKeys_user uid)) = None"
  shows "UserModel_getById E now s uid =
     (case fst (findUserById E s uid True) of
        None \<Rightarrow> (Inl (NotFoundError ''User''),
                 (initializeData E s)\<lparr>cache := snd (cache_get now (cache s) (cacheKeys_user uid))\<rparr>)
      | Some u \<Rightarrow>
          (Inr (CProfile (toPublicProfile u)),
           (initializeData E s)\<lparr>cache :=
              cache_set E now (snd (cache_get now (cache s) (cacheKeys_user uid)))
                (cacheKeys_user uid) (CProfile (toPublicProfile u))\<rparr>))"
proof -
  obtain c1 where c1: "cache_get now (cache s) (cacheKeys_user uid) = (None, c1)"
    using assms(2) by (cases "cache_get now (cache s) (cacheKeys_user uid)") simp
  show ?thesis
  proof (cases "fst (findUserById E s uid True)")
    case None
    then have "findUserById E (s\<lparr>cache := c1\<rparr>) uid True = (None, (initializeData E s)\<lparr>cache := c1\<rparr>)"
      using findUserById_pair [of E "s\<lparr>cache := c1\<rparr>" uid True]
      by (simp add: findUserById_cache initializeData_cache)
    then show ?thesis
      using assms(1) c1 None by (simp add: UserModel_getById_def Let_def)
  next
    case (Some u)
    then have "findUserById E (s\<lparr>cache := c1\<rparr>) uid True = (Some u, (initializeData E s)\<lparr>cache := c1\<rparr>)"
      using findUserById_pair [of E "s\<lparr>cache := c1\<rparr>" uid True]
      by (simp add: findUserById_cache initializeData_cache)
    then show ?thesis
      using assms(1) c1 Some by (simp add: UserModel_getById_def Let_def)
  qed
qed

lemma cache_get_miss_iff:
  "fst (cache_get now c key) = None \<longleftrightarrow>
   (map_of c key = None \<or> (\<exists>item. map_of c key = Some item \<and> expiresAt item < now))"
  by (auto simp: cache_get_def split: option.splits)

lemma cache_get_fresh:
  "map_of c key = Some item \<Longrightarrow> now \<le> expiresAt item \<Longrightarrow>
   cache_get now c key = (Some (entry_value item), c)"
  by (simp add: cache_get_def)

lemma cache_get_value:
  "fst (cache_get now c key) =
     (case map_of c key of
        None \<Rightarrow> None
      | Some item \<Rightarrow> if now \<le> expiresAt item then Some (entry_value item) else None)"
  by (simp add: cache_get_def split: option.splits)

lemma cache_get_stale:
  assumes "map_of c key = None \<or> (\<exists>item. map_of c key = Some item \<and> expiresAt item < now)"
  obtains c1 where "cache_get now c key = (None, c1)"
proof -
  have "fst (cache_get now c key) = None"
    using assms by (simp add: cache_get_miss_iff)
  then have "cache_get now c key = (None, snd (cache_get now c key))"
    by (cases "cache_get now c key") simp
  then show ?thesis
    by (rule that)
qed

lemma cache_set_stored:
  "map_of (cache_set E now c key v) key =
     Some \<lparr> entry_value = v, expiresAt = now + cacheTTL E * 1000 \<rparr>"
  by (simp add: cache_set_def update_conv')

lemma findAllUsers_pair:
  "findAllUsers E (s\<lparr>cache := c\<rparr>) = (fst (findAllUsers E s), (initializeData E s)\<lparr>cache := c\<rparr>)"
  by (simp add: findAllUsers_def Let_def initializeData_def)

lemma findPostById_pair:
  "findPostById E (s\<lparr>cache := c\<rparr>) pid =
     (fst (findPostById E s pid), (initializeData E s)\<lparr>cache := c\<rparr>)"
  by (simp add: findPostById_def Let_def initializeData_def)

lemma findPosts_state: "snd (findPosts E s options) = initializeData E s"
  by (simp add: findPosts_def Let_def split: sum.splits)

lemma findPosts_cache:
  "fst (findPosts E (s\<lparr>cache := c\<rparr>) options) = fst (findPosts E s options)"
  by (cases "where_userId options"; cases "orderBy_createdAt options")
    (auto simp: findPosts_def Let_def initializeData_def split: sum.splits)

lemma findPosts_pair:
  "findPosts E (s\<lparr>cache := c\<rparr>) options =
     (fst (findPosts E s options), (initializeData E s)\<lparr>cache := c\<rparr>)"
  by (simp add: prod_eq_iff findPosts_state findPosts_cache initializeData_cache)

lemma findUserById_pair_cache:
  "findUserById E (s\<lparr>cache := c\<rparr>) uid b =
     (fst (findUserById E s uid b), (initializeData E s)\<lparr>cache := c\<rparr>)"
  using findUserById_pair [of E "s\<lparr>cache := c\<rparr>" uid b]
  by (simp add: findUserById_cache initializeData_cache)

lemma UserModel_getById_cache_aside:
  assumes "isValidId (JString uid)"
  shows "(\<forall>item. map_of (cache s) (cacheKeys_user uid) = Some item \<and> now \<le> expiresAt item \<longrightarrow>
            UserModel_getById E now s uid = (Inr (entry_value item), s)) \<and>
         (map_of (cache s) (cacheKeys_user uid) = None \<or>
          (\<exists>item. map_of (cache s) (cacheKeys_user uid) = Some item \<and> expiresAt item < now) \<longrightarrow>
            fst (UserModel_getById E now s uid) =
              (case fst (findUserById E s uid True) of
                 None \<Rightarrow> Inl (NotFoundError ''User'')
               | Some u \<Rightarrow> Inr (CProfile (toPublicProfile u))) \<and>
            (\<forall>v. fst (UserModel_getById E now s uid) = Inr v \<longrightarrow>
               map_of (cache (snd (UserModel_getById E now s uid))) (cacheKeys_user uid) =
                 Some \<lparr> entry_value = v, expiresAt = now + cacheTTL E * 1000 \<rparr>))"
proof (intro conjI allI impI)
  fix item
  assume "map_of (cache s) (cacheKeys_user uid) = Some item \<and> now \<le> expiresAt item"
  then show "UserModel_getById E now s uid = (Inr (entry_value item), s)"
    using assms by (simp add: UserModel_getById_def Let_def cache_get_fresh)
next
  assume "map_of (cache s) (cacheKeys_user uid) = None \<or>
          (\<exists>item. map_of (cache s) (cacheKeys_user uid) = Some item \<and> expiresAt item < now)"
  then obtain c1 where c1: "cache_get now (cache s) (cacheKeys_user uid) = (None, c1)"
    by (rule cache_get_stale)
  show "fst (UserModel_getById E now s uid) =
              (case fst (findUserById E s uid True) of
                 None \<Rightarrow> Inl (NotFoundError ''User'')
               | Some u \<Rightarrow> Inr (CProfile (toPublicProfile u)))"
    using assms
    by (simp add: UserModel_getById_def Let_def c1 findUserById_pair_cache split: option.splits)
  fix v
  assume "fst (UserModel_getById E now s uid) = Inr v"
  then show "map_of (cache (snd (UserModel_getById E now s uid))) (cacheKeys_user uid) =
                 Some \<lparr> entry_value = v, expiresAt = now + cacheTTL E * 1000 \<rparr>"
    using assms
    by (auto simp: UserModel_getById_def Let_def c1 findUserById_pair_cache cache_set_stored
        split: option.splits)
qed

lemma UserModel_getAll_cache_aside:
  "(\<forall>item. map_of (cache s) cacheKeys_allUsers = Some item \<and> now \<le> expiresAt item \<longrightarrow>
      UserModel_getAll E now s = (Inr (entry_value item), s)) \<and>
   (map_of (cache s) cacheKeys_allUsers = None \<or>
    (\<exists>item. map_of (cache s) cacheKeys_allUsers = Some item \<and> expiresAt item < now) \<longrightarrow>
      fst (UserModel_getAll E now s) =
        Inr (CProfiles (map toPublicProfile (fst (findAllUsers E s)))) \<and>
      (\<forall>v. fst (UserModel_getAll E now s) = Inr v \<longrightarrow>
         map_of (cache (snd (UserModel_getAll E now s))) cacheKeys_allUsers =
           Some \<lparr> entry_value = v, expiresAt = now + cacheTTL E * 1000 \<rparr>))"
proof (intro conjI allI impI)
  fix item
  assume "map_of (cache s) cacheKeys_allUsers = Some item \<and> now \<le> expiresAt item"
  then show "UserModel_getAll E now s = (Inr (entry_value item), s)"
    by (simp add: UserModel_getAll_def Let_def cache_get_fresh)
next
  assume "map_of (cache s) cacheKeys_allUsers = None \<or>
          (\<exists>item. map_of (cache s) cacheKeys_allUsers = Some item \<and> expiresAt item < now)"
  then obtain c1 where c1: "cache_get now (cache s) cacheKeys_allUsers = (None, c1)"
    by (rule cache_get_stale)
  show "fst (UserModel_getAll E now s) =
        Inr (CProfiles (map toPublicProfile (fst (findAllUsers E s))))"
    by (simp add: UserModel_getAll_def Let_def c1 findAllUsers_pair)
  fix v
  assume "fst (UserModel_getAll E now s) = Inr v"
  then show "map_of (cache (snd (UserModel_getAll E now s))) cacheKeys_allUsers =
           Some \<lparr> entry_value = v, expiresAt = now + cacheTTL E * 1000 \<rparr>"
    by (auto simp: UserModel_getAll_def Let_def c1 findAllUsers_pair cache_set_stored)
qed

lemma PostModel_getById_cache_aside:
  assumes "isValidId (JString pid)"
  shows "(\<forall>item. map_of (cache s) (cacheKeys_post pid) = Some item \<and> now \<le> expiresAt item \<longrightarrow>
            PostModel_getById E now s pid = (Inr (entry_value item), s)) \<and>
         (map_of (cache s) (cacheKeys_post pid) = None \<or>
          (\<exists>item. map_of (cache s) (cacheKeys_post pid) = Some item \<and> expiresAt item < now) \<longrightarrow>
            fst (PostModel_getById E now s pid) =
              (case fst (findPostById E s pid) of
                 None \<Rightarrow> Inl (NotFoundError ''Post'')
               | Some p \<Rightarrow>
                   if post_deletedAt p \<noteq> None then Inl (NotFoundError ''Post'')
                   else (case fst (UserModel_getById E now
                                     ((initializeData E s)\<lparr>cache :=
                                        snd (cache_get now (cache s) (cacheKeys_post pid))\<rparr>)
                                     (userId p)) of
                           Inl e \<Rightarrow> Inl e
                         | Inr author \<Rightarrow> Inr (CPostWithAuthor p author))) \<and>
            (\<forall>v. fst (PostModel_getById E now s pid) = Inr v \<longrightarrow>
               map_of (cache (snd (PostModel_getById E now s pid))) (cacheKeys_post pid) =
                 Some \<lparr> entry_value = v, expiresAt = now + cacheTTL E * 1000 \<rparr>))"
proof (intro conjI allI impI)
  fix item
  assume "map_of (cache s) (cacheKeys_post pid) = Some item \<and> now \<le> expiresAt item"
  then show "PostModel_getById E now s pid = (Inr (entry_value item), s)"
    using assms by (simp add: PostModel_getById_def Let_def cache_get_fresh)
next
  assume "map_of (cache s) (cacheKeys_post pid) = None \<or>
          (\<exists>item. map_of (cache s) (cacheKeys_post pid) = Some item \<and> expiresAt item < now)"
  then obtain c1 where c1: "cache_get now (cache s) (cacheKeys_post pid) = (None, c1)"
    by (rule cache_get_stale)
  show "fst (PostModel_getById E now s pid) =
              (case fst (findPostById E s pid) of
                 None \<Rightarrow> Inl (NotFoundError ''Post'')
               | Some p \<Rightarrow>
                   if post_deletedAt p \<noteq> None then Inl (NotFoundError ''Post'')
                   else (case fst (UserModel_getById E now
                                     ((initializeData E s)\<lparr>cache :=
                                        snd (cache_get now (cache s) (cacheKeys_post pid))\<rparr>)
                                     (userId p)) of
                           Inl e \<Rightarrow> Inl e
                         | Inr author \<Rightarrow> Inr (CPostWithAuthor p author)))"
    using assms
    by (simp add: PostModel_getById_def Let_def c1 findPostById_pair
        split: option.splits prod.splits sum.splits)
  fix v
  assume "fst (PostModel_getById E now s pid) = Inr v"
  then show "map_of (cache (snd (PostModel_getById E now s pid))) (cacheKeys_post pid) =
                 Some \<lparr> entry_value = v, expiresAt = now + cacheTTL E * 1000 \<rparr>"
    using assms
    by (auto simp: PostModel_getById_def Let_def c1 findPostById_pair cache_set_stored
        split: option.splits prod.splits sum.splits if_splits)
qed

lemma PostModel_getByUserId_cache_aside:
  assumes "isValidId (JString uid)" and "validatePagination lim off ord = Inr pg"
  shows "(\<forall>item. map_of (cache s) (cacheKeys_userPosts uid (nat (offset pg div limit pg))) =
                   Some item \<and> now \<le> expiresAt item \<longrightarrow>
            PostModel_getByUserId E now s uid lim off ord = (Inr (entry_value item), s)) \<and>
         (map_of (cache s) (cacheKeys_userPosts uid (nat (offset pg div limit pg))) = None \<or>
          (\<exists>item. map_of (cache s) (cacheKeys_userPosts uid (nat (offset pg div limit pg))) =
                    Some item \<and> expiresAt item < now) \<longrightarrow>
            fst (PostModel_getByUserId E now s uid lim off ord) =
              (case fst (findPosts E s
                           \<lparr> where_userId = Some uid, where_deletedAt_null = True,
                             orderBy_createdAt = Some (order pg), opt_limit = Some (limit pg),
                             opt_offset = Some (offset pg) \<rparr>) of
                 Inl e \<Rightarrow> Inl e
               | Inr ps \<Rightarrow> Inr (CPosts ps)) \<and>
            (\<forall>v. fst (PostModel_getByUserId E now s uid lim off ord) = Inr v \<longrightarrow>
               map_of (cache (snd (PostModel_getByUserId E now s uid lim off ord)))
                 (cacheKeys_userPosts uid (nat (offset pg div limit pg))) =
                 Some \<lparr> entry_value = v, expiresAt = now + cacheTTL E * 1000 \<rparr>))"
proof (intro conjI allI impI)
  fix item
  assume "map_of (cache s) (cacheKeys_userPosts uid (nat (offset pg div limit pg))) = Some item \<and>
          now \<le> expiresAt item"
  then show "PostModel_getByUserId E now s uid lim off ord = (Inr (entry_value item), s)"
    using assms by (simp add: PostModel_getByUserId_def Let_def cache_get_fresh)
next
  assume "map_of (cache s) (cacheKeys_userPosts uid (nat (offset pg div limit pg))) = None \<or>
          (\<exists>item. map_of (cache s) (cacheKeys_userPosts uid (nat (offset pg div limit pg))) =
                    Some item \<and> expiresAt item < now)"
  then obtain c1 where c1: "cache_get now (cache s) (cacheKeys_userPosts uid (nat (offset pg div limit pg))) = (None, c1)"
    by (rule cache_get_stale)
  have unfolded: "PostModel_getByUserId E now s uid lim off ord =
      (case fst (findPosts E s
                   \<lparr> where_userId = Some uid, where_deletedAt_null = True,
                     orderBy_createdAt = Some (order pg), opt_limit = Some (limit pg),
                     opt_offset = Some (offset pg) \<rparr>) of
         Inl e \<Rightarrow> (Inl e, (initializeData E s)\<lparr>cache := c1\<rparr>)
       | Inr ps \<Rightarrow>
           (Inr (CPosts ps),
            (initializeData E s)\<lparr>cache :=
               cache_set E now c1
                 (cacheKeys_userPosts uid (nat (offset pg div limit pg))) (CPosts ps)\<rparr>))"
    using assms
    by (simp add: PostModel_getByUserId_def Let_def c1 findPosts_pair split: sum.splits)
  show "fst (PostModel_getByUserId E now s uid lim off ord) =
              (case fst (findPosts E s
                           \<lparr> where_userId = Some uid, where_deletedAt_null = True,
                             orderBy_createdAt = Some (order pg), opt_limit = Some (limit pg),
                             opt_offset = Some (offset pg) \<rparr>) of
                 Inl e \<Rightarrow> Inl e
               | Inr ps \<Rightarrow> Inr (CPosts ps))"
    unfolding unfolded by (simp add: c1 split: sum.splits)
  fix v
  assume "fst (PostModel_getByUserId E now s uid lim off ord) = Inr v"
  then show "map_of (cache (snd (PostModel_getByUserId E now s uid lim off ord)))
                 (cacheKeys_userPosts uid (nat (offset pg div limit pg))) =
                 Some \<lparr> entry_value = v, expiresAt = now + cacheTTL E * 1000 \<rparr>"
    unfolding unfolded by (auto simp: cache_set_stored split: sum.splits)
qed

lemma PostModel_getAllWithAuthors_cache_aside:
  assumes "validatePagination lim off ord = Inr pg"
  shows "(\<forall>item. map_of (cache s) (cacheKeys_feed (nat (offset pg div limit pg))) = Some item \<and>
                 now \<le> expiresAt item \<longrightarrow>
            PostModel_getAllWithAuthors E now s lim off ord = (Inr (entry_value item), s)) \<and>
         (map_of (cache s) (cacheKeys_feed (nat (offset pg div limit pg))) = None \<or>
          (\<exists>item. map_of (cache s) (cacheKeys_feed (nat (offset pg div limit pg))) = Some item \<and>
                  expiresAt item < now) \<longrightarrow>
            fst (PostModel_getAllWithAuthors E now s lim off ord) =
              (case fst (findPosts E s
                           \<lparr> where_userId = None, where_deletedAt_null = True,
                             orderBy_createdAt = Some (order pg), opt_limit = Some (limit pg),
                             opt_offset = Some (offset pg) \<rparr>) of
                 Inl e \<Rightarrow> Inl e
               | Inr ps \<Rightarrow>
                   Inr (CFeed (fst (with_authors E now ps
                                      ((initializeData E s)\<lparr>cache :=
                                         snd (cache_get now (cache s)
                                                (cacheKeys_feed (nat (offset pg div limit pg))))\<rparr>))))) \<and>
            (\<forall>v. fst (PostModel_getAllWithAuthors E now s lim off ord) = Inr v \<longrightarrow>
               map_of (cache (snd (PostModel_getAllWithAuthors E now s lim off ord)))
                 (cacheKeys_feed (nat (offset pg div limit pg))) =
                 Some \<lparr> entry_value = v, expiresAt = now + cacheTTL E * 1000 \<rparr>))"
proof (intro conjI allI impI)
  fix item
  assume "map_of (cache s) (cacheKeys_feed (nat (offset pg div limit pg))) = Some item \<and>
          now \<le> expiresAt item"
  then show "PostModel_getAllWithAuthors E now s lim off ord = (Inr (entry_value item), s)"
    using assms by (simp add: PostModel_getAllWithAuthors_def Let_def cache_get_fresh)
next
  assume "map_of (cache s) (cacheKeys_feed (nat (offset pg div limit pg))) = None \<or>
          (\<exists>item. map_of (cache s) (cacheKeys_feed (nat (offset pg div limit pg))) = Some item \<and>
                  expiresAt item < now)"
  then obtain c1 where c1: "cache_get now (cache s) (cacheKeys_feed (nat (offset pg div limit pg))) = (None, c1)"
    by (rule cache_get_stale)
  define S1 where "S1 = (initializeData E s)\<lparr>cache := c1\<rparr>"
  have unfolded: "PostModel_getAllWithAuthors E now s lim off ord =
      (case fst (findPosts E s
                   \<lparr> where_userId = None, where_deletedAt_null = True,
                     orderBy_createdAt = Some (order pg), opt_limit = Some (limit pg),
                     opt_offset = Some (offset pg) \<rparr>) of
         Inl e \<Rightarrow> (Inl e, S1)
       | Inr ps \<Rightarrow>
           (Inr (CFeed (fst (with_authors E now ps S1))),
            (snd (with_authors E now ps S1))\<lparr>cache :=
               cache_set E now (cache (snd (with_authors E now ps S1)))
                 (cacheKeys_feed (nat (offset pg div limit pg)))
                 (CFeed (fst (with_authors E now ps S1)))\<rparr>))"
    using assms
    by (simp add: PostModel_getAllWithAuthors_def Let_def c1 findPosts_pair S1_def
        split: sum.splits prod.splits)
  show "fst (PostModel_getAllWithAuthors E now s lim off ord) =
              (case fst (findPosts E s
                           \<lparr> where_userId = None, where_deletedAt_null = True,
                             orderBy_createdAt = Some (order pg), opt_limit = Some (limit pg),
                             opt_offset = Some (offset pg) \<rparr>) of
                 Inl e \<Rightarrow> Inl e
               | Inr ps \<Rightarrow>
                   Inr (CFeed (fst (with_authors E now ps
                                      ((initializeData E s)\<lparr>cache :=
                                         snd (cache_get now (cache s)
                                                (cacheKeys_feed (nat (offset pg div limit pg))))\<rparr>)))))"
    unfolding unfolded S1_def by (simp add: c1 split: sum.splits)
  fix v
  assume "fst (PostModel_getAllWithAuthors E now s lim off ord) = Inr v"
  then show "map_of (cache (snd (PostModel_getAllWithAuthors E now s lim off ord)))
                 (cacheKeys_feed (nat (offset pg div limit pg))) =
                 Some \<lparr> entry_value = v, expiresAt = now + cacheTTL E * 1000 \<rparr>"
    unfolding unfolded by (auto simp: cache_set_stored split: sum.splits)
qed

lemma alice_id_valid: "isValidId (JString alice_id)"
  by code_simp

lemma bob_id_valid: "isValidId (JString bob_id)"
  by code_simp

lemma post2_id_valid: "isValidId (JString post2_id)"
  by code_simp

lemma sample_cache_cold: "map_of (cache sample_state) (cacheKeys_user alice_id) = None"
  by code_simp

lemma sample_finds_alice: "fst (findUserById sample_env sample_state alice_id True) = Some alice"
  by code_simp

lemma warm_cache_entry:
  "map_of (cache warm_state) (cacheKeys_user alice_id) =
     Some \<lparr> entry_value = CProfile (toPublicProfile alice), expiresAt = 301000 \<rparr>"
  by code_simp

lemma sample_ttl: "1000 + cacheTTL sample_env * 1000 = 301000"
  by code_simp

text \<open>
  C3: the cache-aside read path. No function of the code takes a key and a loader: each of
  the five readers (\<^verbatim>\<open>UserModel.getById\<close>, \<^verbatim>\<open>UserModel.getAll\<close>, \<^verbatim>\<open>PostModel.getById\<close>,
  \<^verbatim>\<open>PostModel.getByUserId\<close>, \<^verbatim>\<open>PostModel.getAllWithAuthors\<close>) writes the pattern out
  around \<^verbatim>\<open>cache.get\<close> and \<^verbatim>\<open>cache.set\<close>. For every cache and every key, \<^verbatim>\<open>cache.get\<close>
  yields a value exactly when an entry for the key is present and \<open>now \<le> expiresAt\<close>, and
  then it is the value of that entry, so never a value whose \<open>expiresAt\<close> is in the past;
  \<^verbatim>\<open>cache.set\<close> stores its value under the key with \<open>expiresAt = now + cacheTTL * 1000\<close>,
  where \<open>cacheTTL\<close> is 300 seconds by default. For every reader, once its arguments have
  passed validation: on a hit (entry present and \<open>now \<le> expiresAt\<close>) the cached value is
  returned and the whole state comes back as it was, whatever the store holds, so the
  loader is not run; on a miss (entry absent or expired) the reader returns what its loader
  (the read against the store, for a post and for the feed joined with the authors'
  profiles) returns, and a value that is returned is stored under the reader's key with
  \<open>expiresAt = now + cacheTTL * 1000\<close>.
\<close>

theorem cache_aside_read_path:
  "fst (cache_get now c key) =
     (case map_of c key of
        None \<Rightarrow> None
      | Some item \<Rightarrow> if now \<le> expiresAt item then Some (entry_value item) else None) \<and>
   map_of (cache_set E now c key v) key =
     Some \<lparr> entry_value = v, expiresAt = now + cacheTTL E * 1000 \<rparr> \<and>
   default_cacheTTL = 300 \<and>
   (isValidId (JString uid) \<longrightarrow>
      (\<forall>item. map_of (cache s) (cacheKeys_user uid) = Some item \<and> now \<le> expiresAt item \<longrightarrow>
         UserModel_getById E now s uid = (Inr (entry_value item), s)) \<and>
      (map_of (cache s) (cacheKeys_user uid) = None \<or>
       (\<exists>item. map_of (cache s) (cacheKeys_user uid) = Some item \<and> expiresAt item < now) \<longrightarrow>
         fst (UserModel_getById E now s uid) =
           (case fst (findUserById E s uid True) of
              None \<Rightarrow> Inl (NotFoundError ''User'')
            | Some u \<Rightarrow> Inr (CProfile (toPublicProfile u))) \<and>
         (\<forall>v. fst (UserModel_getById E now s uid) = Inr v \<longrightarrow>
            map_of (cache (snd (UserModel_getById E now s uid))) (cacheKeys_user uid) =
              Some \<lparr> entry_value = v, expiresAt = now + cacheTTL E * 1000 \<rparr>))) \<and>
   ((\<forall>item. map_of (cache s) cacheKeys_allUsers = Some item \<and> now \<le> expiresAt item \<longrightarrow>
       UserModel_getAll E now s = (Inr (entry_value item), s)) \<and>
    (map_of (cache s) cacheKeys_allUsers = None \<or>
     (\<exists>item. map_of (cache s) cacheKeys_allUsers = Some item \<and> expiresAt item < now) \<longrightarrow>
       fst (UserModel_getAll E now s) =
         Inr (CProfiles (map toPublicProfile (fst (findAllUsers E s)))) \<and>
       (\<forall>v. fst (UserModel_getAll E now s) = Inr v \<longrightarrow>
          map_of (cache (snd (UserModel_getAll E now s))) cacheKeys_allUsers =
            Some \<lparr> entry_value = v, expiresAt = now + cacheTTL E * 1000 \<rparr>))) \<and>
   (isValidId (JString pid) \<longrightarrow>
      (\<forall>item. map_of (cache s) (cacheKeys_post pid) = Some item \<and> now \<le> expiresAt item \<longrightarrow>
         PostModel_getById E now s pid = (Inr (entry_value item), s)) \<and>
      (map_of (cache s) (cacheKeys_post pid) = None \<or>
       (\<exists>item. map_of (cache s) (cacheKeys_post pid) = Some item \<and> expiresAt item < now) \<longrightarrow>
         fst (PostModel_getById E now s pid) =
           (case fst (findPostById E s pid) of
              None \<Rightarrow> Inl (NotFoundError ''Post'')
            | Some p \<Rightarrow>
                if post_deletedAt p \<noteq> None then Inl (NotFoundError ''Post'')
                else (case fst (UserModel_getById E now
                                  ((initializeData E s)\<lparr>cache :=
                                     snd (cache_get now (cache s) (cacheKeys_post pid))\<rparr>)
                                  (userId p)) of
                        Inl e \<Rightarrow> Inl e
                      | Inr author \<Rightarrow> Inr (CPostWithAuthor p author))) \<and>
         (\<forall>v. fst (PostModel_getById E now s pid) = Inr v \<longrightarrow>
            map_of (cache (snd (PostModel_getById E now s pid))) (cacheKeys_post pid) =
              Some \<lparr> entry_value = v, expiresAt = now + cacheTTL E * 1000 \<rparr>))) \<and>
   (isValidId (JString uid) \<and> validatePagination lim off ord = Inr pg \<longrightarrow>
      (\<forall>item. map_of (cache s) (cacheKeys_userPosts uid (nat (offset pg div limit pg))) =
                Some item \<and> now \<le> expiresAt item \<longrightarrow>
         PostModel_getByUserId E now s uid lim off ord = (Inr (entry_value item), s)) \<and>
      (map_of (cache s) (cacheKeys_userPosts uid (nat (offset pg div limit pg))) = None \<or>
       (\<exists>item. map_of (cache s) (cacheKeys_userPosts uid (nat (offset pg div limit pg))) =
                 Some item \<and> expiresAt item < now) \<longrightarrow>
         fst (PostModel_getByUserId E now s uid lim off ord) =
           (case fst (findPosts E s
                        \<lparr> where_userId = Some uid, where_deletedAt_null = True,
                          orderBy_createdAt = Some (order pg), opt_limit = Some (limit pg),
                          opt_offset = Some (offset pg) \<rparr>) of
              Inl e \<Rightarrow> Inl e
            | Inr ps \<Rightarrow> Inr (CPosts ps)) \<and>
         (\<forall>v. fst (PostModel_getByUserId E now s uid lim off ord) = Inr v \<longrightarrow>
            map_of (cache (snd (PostModel_getByUserId E now s uid lim off ord)))
              (cacheKeys_userPosts uid (nat (offset pg div limit pg))) =
              Some \<lparr> entry_value = v, expiresAt = now + cacheTTL E * 1000 \<rparr>))) \<and>
   (validatePagination lim off ord = Inr pg \<longrightarrow>
      (\<forall>item. map_of (cache s) (cacheKeys_feed (nat (offset pg div limit pg))) = Some item \<and>
              now \<le> expiresAt item \<longrightarrow>
         PostModel_getAllWithAuthors E now s lim off ord = (Inr (entry_value item), s)) \<and>
      (map_of (cache s) (cacheKeys_feed (nat (offset pg div limit pg))) = None \<or>
       (\<exists>item. map_of (cache s) (cacheKeys_feed (nat (offset pg div limit pg))) = Some item \<and>
               expiresAt item < now) \<longrightarrow>
         fst (PostModel_getAllWithAuthors E now s lim off ord) =
           (case fst (findPosts E s
                        \<lparr> where_userId = None, where_deletedAt_null = True,
                          orderBy_createdAt = Some (order pg), opt_limit = Some (limit pg),
                          opt_offset = Some (offset pg) \<rparr>) of
              Inl e \<Rightarrow> Inl e
            | Inr ps \<Rightarrow>
                Inr (CFeed (fst (with_authors E now ps
                                   ((initializeData E s)\<lparr>cache :=
                                      snd (cache_get now (cache s)
                                             (cacheKeys_feed (nat (offset pg div limit pg))))\<rparr>))))) \<and>
         (\<forall>v. fst (PostModel_getAllWithAuthors E now s lim off ord) = Inr v \<longrightarrow>
            map_of (cache (snd (PostModel_getAllWithAuthors E now s lim off ord)))
              (cacheKeys_feed (nat (offset pg div limit pg))) =
              Some \<lparr> entry_value = v, expiresAt = now + cacheTTL E * 1000 \<rparr>)))"
  apply (intro conjI)
  subgoal by (rule cache_get_value)
  subgoal by (rule cache_set_stored)
  subgoal by (simp add: default_cacheTTL_def)
  subgoal by (rule impI) (erule UserModel_getById_cache_aside)
  subgoal by (rule UserModel_getAll_cache_aside [THEN conjunct1])
  subgoal by (rule UserModel_getAll_cache_aside [THEN conjunct2])
  subgoal by (rule impI) (erule PostModel_getById_cache_aside)
  subgoal by (rule impI, elim conjE) (rule PostModel_getByUserId_cache_aside)
  subgoal by (rule impI) (erule PostModel_getAllWithAuthors_cache_aside)
  done

lemma sample_pagination:
  "validatePagination None None None = Inr \<lparr> limit = 20, offset = 0, order = DESC \<rparr>"
  by code_simp

lemma post1_id_valid: "isValidId (JString post1_id)"
  by code_simp

lemma warm_fresh:
  "map_of (cache warm_state) (cacheKeys_user alice_id) =
     Some \<lparr> entry_value = CProfile (toPublicProfile alice), expiresAt = 301000 \<rparr> \<and>
   301000 \<le> expiresAt \<lparr> entry_value = CProfile (toPublicProfile alice), expiresAt = 301000 \<rparr>"
  using warm_cache_entry by simp

lemma sample_cold_all: "map_of (cache sample_state) cacheKeys_allUsers = None"
  by code_simp

lemma sample_cold_post: "map_of (cache sample_state) (cacheKeys_post post1_id) = None"
  by code_simp

lemma sample_cold_userPosts:
  "map_of (cache sample_state)
     (cacheKeys_userPosts alice_id
        (nat (offset \<lparr> limit = 20, offset = 0, order = DESC \<rparr>
              div limit \<lparr> limit = 20, offset = 0, order = DESC \<rparr>))) = None"
  by code_simp

lemma sample_cold_feed:
  "map_of (cache sample_state)
     (cacheKeys_feed (nat (offset \<lparr> limit = 20, offset = 0, order = DESC \<rparr>
                           div limit \<lparr> limit = 20, offset = 0, order = DESC \<rparr>))) = None"
  by code_simp

lemma sample_keys:
  "cacheKeys_user alice_id = ''user:'' @ alice_id"
  "cacheKeys_allUsers = ''users:all''"
  "cacheKeys_post post1_id = ''post:'' @ post1_id"
  "cacheKeys_userPosts alice_id
     (nat (offset \<lparr> limit = 20, offset = 0, order = DESC \<rparr>
           div limit \<lparr> limit = 20, offset = 0, order = DESC \<rparr>)) =
     ''posts:user:'' @ alice_id @ '':page:0''"
  "cacheKeys_feed (nat (offset \<lparr> limit = 20, offset = 0, order = DESC \<rparr>
                        div limit \<lparr> limit = 20, offset = 0, order = DESC \<rparr>)) =
     ''posts:feed:page:0''"
  by code_simp+

lemma sample_loads_alice:
  "(case fst (findUserById sample_env sample_state alice_id True) of
      None \<Rightarrow> Inl (NotFoundError ''User'')
    | Some u \<Rightarrow> Inr (CProfile (toPublicProfile u))) =
   Inr (CProfile (toPublicProfile alice))"
  by code_simp

lemma sample_loads_all:
  "Inr (CProfiles (map toPublicProfile (fst (findAllUsers sample_env sample_state)))) =
   (Inr (CProfiles [toPublicProfile alice, toPublicProfile bob]) :: js_error + cache_value)"
  by code_simp

lemma sample_loads_post1:
  "(case fst (findPostById sample_env sample_state post1_id) of
      None \<Rightarrow> Inl (NotFoundError ''Post'')
    | Some p \<Rightarrow>
        if post_deletedAt p \<noteq> None then Inl (NotFoundError ''Post'')
        else (case fst (UserModel_getById sample_env 1000
                          ((initializeData sample_env sample_state)\<lparr>cache :=
                             snd (cache_get 1000 (cache sample_state) (cacheKeys_post post1_id))\<rparr>)
                          (userId p)) of
                Inl e \<Rightarrow> Inl e
              | Inr author \<Rightarrow> Inr (CPostWithAuthor p author))) =
   Inr (CPostWithAuthor post1 (CProfile (toPublicProfile alice)))"
  by code_simp

lemma sample_loads_userPosts:
  "(case fst (findPosts sample_env sample_state
                \<lparr> where_userId = Some alice_id, where_deletedAt_null = True,
                  orderBy_createdAt = Some (order \<lparr> limit = 20, offset = 0, order = DESC \<rparr>),
                  opt_limit = Some (limit \<lparr> limit = 20, offset = 0, order = DESC \<rparr>),
                  opt_offset = Some (offset \<lparr> limit = 20, offset = 0, order = DESC \<rparr>) \<rparr>) of
      Inl e \<Rightarrow> Inl e
    | Inr ps \<Rightarrow> Inr (CPosts ps)) =
   Inr (CPosts [post1])"
  by code_simp

lemma sample_loads_feed:
  "(case fst (findPosts sample_env sample_state
                \<lparr> where_userId = None, where_deletedAt_null = True,
                  orderBy_createdAt = Some (order \<lparr> limit = 20, offset = 0, order = DESC \<rparr>),
                  opt_limit = Some (limit \<lparr> limit = 20, offset = 0, order = DESC \<rparr>),
                  opt_offset = Some (offset \<lparr> limit = 20, offset = 0, order = DESC \<rparr>) \<rparr>) of
      Inl e \<Rightarrow> Inl e
    | Inr ps \<Rightarrow>
        Inr (CFeed (fst (with_authors sample_env 1000 ps
                           ((initializeData sample_env sample_state)\<lparr>cache :=
                              snd (cache_get 1000 (cache sample_state)
                                     (cacheKeys_feed
                                        (nat (offset \<lparr> limit = 20, offset = 0, order = DESC \<rparr>
                                              div limit \<lparr> limit = 20, offset = 0, order = DESC \<rparr>))))\<rparr>))))) =
   Inr (CFeed [(post1, CProfile (toPublicProfile alice)), (post2, CProfile (toPublicProfile bob))])"
  by code_simp

theorem cache_aside_read_path_witness:
  "(fst (UserModel_getById sample_env 1000 sample_state alice_id) =
      Inr (CProfile (toPublicProfile alice)) \<and>
    map_of (cache (snd (UserModel_getById sample_env 1000 sample_state alice_id)))
      (''user:'' @ alice_id) =
      Some \<lparr> entry_value = CProfile (toPublicProfile alice), expiresAt = 301000 \<rparr>) \<and>
   UserModel_getById sample_env 301000 warm_state alice_id =
     (Inr (CProfile (toPublicProfile alice)), warm_state) \<and>
   (fst (UserModel_getAll sample_env 1000 sample_state) =
      Inr (CProfiles [toPublicProfile alice, toPublicProfile bob]) \<and>
    map_of (cache (snd (UserModel_getAll sample_env 1000 sample_state))) ''users:all'' =
      Some \<lparr> entry_value = CProfiles [toPublicProfile alice, toPublicProfile bob],
             expiresAt = 301000 \<rparr>) \<and>
   (fst (PostModel_getById sample_env 1000 sample_state post1_id) =
      Inr (CPostWithAuthor post1 (CProfile (toPublicProfile alice))) \<and>
    map_of (cache (snd (PostModel_getById sample_env 1000 sample_state post1_id)))
      (''post:'' @ post1_id) =
      Some \<lparr> entry_value = CPostWithAuthor post1 (CProfile (toPublicProfile alice)),
             expiresAt = 301000 \<rparr>) \<and>
   (fst (PostModel_getByUserId sample_env 1000 sample_state alice_id None None None) =
      Inr (CPosts [post1]) \<and>
    map_of (cache (snd (PostModel_getByUserId sample_env 1000 sample_state alice_id
                          None None None)))
      (''posts:user:'' @ alice_id @ '':page:0'') =
      Some \<lparr> entry_value = CPosts [post1], expiresAt = 301000 \<rparr>) \<and>
   (fst (PostModel_getAllWithAuthors sample_env 1000 sample_state None None None) =
      Inr (CFeed [(post1, CProfile (toPublicProfile alice)),
                  (post2, CProfile (toPublicProfile bob))]) \<and>
    map_of (cache (snd (PostModel_getAllWithAuthors sample_env 1000 sample_state
                          None None None)))
      ''posts:feed:page:0'' =
      Some \<lparr> entry_value = CFeed [(post1, CProfile (toPublicProfile alice)),
                                  (post2, CProfile (toPublicProfile bob))],
             expiresAt = 301000 \<rparr>)"
proof -
  note user_miss = cache_aside_read_path
    [where E = sample_env and uid = alice_id and now = 1000 and s = sample_state,
     THEN conjunct2, THEN conjunct2, THEN conjunct2,
     THEN conjunct1, THEN mp, OF alice_id_valid,
     THEN conjunct2, THEN mp, OF disjI1, OF sample_cache_cold]
  have a1: "fst (UserModel_getById sample_env 1000 sample_state alice_id) =
              Inr (CProfile (toPublicProfile alice))"
    using user_miss [THEN conjunct1] by (simp only: sample_loads_alice)
  have a2: "map_of (cache (snd (UserModel_getById sample_env 1000 sample_state alice_id)))
              (''user:'' @ alice_id) =
            Some \<lparr> entry_value = CProfile (toPublicProfile alice), expiresAt = 301000 \<rparr>"
    using user_miss [THEN conjunct2, THEN spec, THEN mp, OF a1]
    by (simp only: sample_ttl sample_keys)
  have b: "UserModel_getById sample_env 301000 warm_state alice_id =
             (Inr (CProfile (toPublicProfile alice)), warm_state)"
    using cache_aside_read_path
      [where E = sample_env and uid = alice_id and now = 301000 and s = warm_state,
       THEN conjunct2, THEN conjunct2, THEN conjunct2,
       THEN conjunct1, THEN mp, OF alice_id_valid,
       THEN conjunct1, THEN spec, THEN mp, OF warm_fresh]
    by simp
  note all_miss = cache_aside_read_path
    [where E = sample_env and now = 1000 and s = sample_state,
     THEN conjunct2, THEN conjunct2, THEN conjunct2,
     THEN conjunct2, THEN conjunct1, THEN conjunct2, THEN mp, OF disjI1, OF sample_cold_all]
  have c1: "fst (UserModel_getAll sample_env 1000 sample_state) =
              Inr (CProfiles [toPublicProfile alice, toPublicProfile bob])"
    using all_miss [THEN conjunct1] by (simp only: sample_loads_all)
  have c2: "map_of (cache (snd (UserModel_getAll sample_env 1000 sample_state))) ''users:all'' =
            Some \<lparr> entry_value = CProfiles [toPublicProfile alice, toPublicProfile bob],
                   expiresAt = 301000 \<rparr>"
    using all_miss [THEN conjunct2, THEN spec, THEN mp, OF c1]
    by (simp only: sample_ttl sample_keys)
  note post_miss = cache_aside_read_path
    [where E = sample_env and now = 1000 and s = sample_state and pid = post1_id,
     THEN conjunct2, THEN conjunct2, THEN conjunct2,
     THEN conjunct2, THEN conjunct2, THEN conjunct1, THEN mp, OF post1_id_valid,
     THEN conjunct2, THEN mp, OF disjI1, OF sample_cold_post]
  have d1: "fst (PostModel_getById sample_env 1000 sample_state post1_id) =
              Inr (CPostWithAuthor post1 (CProfile (toPublicProfile alice)))"
    using post_miss [THEN conjunct1] by (simp only: sample_loads_post1)
  have d2: "map_of (cache (snd (PostModel_getById sample_env 1000 sample_state post1_id)))
              (''post:'' @ post1_id) =
            Some \<lparr> entry_value = CPostWithAuthor post1 (CProfile (toPublicProfile alice)),
                   expiresAt = 301000 \<rparr>"
    using post_miss [THEN conjunct2, THEN spec, THEN mp, OF d1]
    by (simp only: sample_ttl sample_keys)
  note userPosts_miss = cache_aside_read_path
    [where E = sample_env and now = 1000 and s = sample_state and uid = alice_id
       and lim = None and off = None and ord = None
       and pg = "\<lparr> limit = 20, offset = 0, order = DESC \<rparr>",
     THEN conjunct2, THEN conjunct2, THEN conjunct2,
     THEN conjunct2, THEN conjunct2, THEN conjunct2, THEN conjunct1, THEN mp,
     OF conjI, OF alice_id_valid sample_pagination,
     THEN conjunct2, THEN mp, OF disjI1, OF sample_cold_userPosts]
  have e1: "fst (PostModel_getByUserId sample_env 1000 sample_state alice_id None None None) =
              Inr (CPosts [post1])"
    using userPosts_miss [THEN conjunct1] by (simp only: sample_loads_userPosts)
  have e2: "map_of (cache (snd (PostModel_getByUserId sample_env 1000 sample_state alice_id
                                  None None None)))
              (''posts:user:'' @ alice_id @ '':page:0'') =
            Some \<lparr> entry_value = CPosts [post1], expiresAt = 301000 \<rparr>"
    using userPosts_miss [THEN conjunct2, THEN spec, THEN mp, OF e1]
    by (simp only: sample_ttl sample_keys)
  note feed_miss = cache_aside_read_path
    [where E = sample_env and now = 1000 and s = sample_state
       and lim = None and off = None and ord = None
       and pg = "\<lparr> limit = 20, offset = 0, order = DESC \<rparr>",
     THEN conjunct2, THEN conjunct2, THEN conjunct2,
     THEN conjunct2, THEN conjunct2, THEN conjunct2, THEN conjunct2, THEN mp,
     OF sample_pagination, THEN conjunct2, THEN mp, OF disjI1, OF sample_cold_feed]
  have f1: "fst (PostModel_getAllWithAuthors sample_env 1000 sample_state None None None) =
              Inr (CFeed [(post1, CProfile (toPublicProfile alice)),
                          (post2, CProfile (toPublicProfile bob))])"
    using feed_miss [THEN conjunct1] by (simp only: sample_loads_feed)
  have f2: "map_of (cache (snd (PostModel_getAllWithAuthors sample_env 1000 sample_state
                                  None None None)))
              ''posts:feed:page:0'' =
            Some \<lparr> entry_value = CFeed [(post1, CProfile (toPublicProfile alice)),
                                        (post2, CProfile (toPublicProfile bob))],
                   expiresAt = 301000 \<rparr>"
    using feed_miss [THEN conjunct2, THEN spec, THEN mp, OF f1]
    by (simp only: sample_ttl sample_keys)
  show ?thesis
    using a1 a2 b c1 c2 d1 d2 e1 e2 f1 f2 by (simp only: simp_thms)
qed

section \<open>Transactions\<close>

lemma transaction_throws:
  assumes "callback (initializeData E s) = (Inl e, s1)"
  shows "transaction E callback s =
           (Inl e, s1\<lparr>posts := map json_post (posts (initializeData E s)),
                       users := map json_user (users (initializeData E s))\<rparr>)"
  using assms by (simp add: transaction_def Let_def)

lemma transaction_returns:
  assumes "callback (initializeData E s) = (Inr r, s1)"
  shows "transaction E callback s = (Inr r, s1)"
  using assms by (simp add: transaction_def Let_def)

lemma json_post_changes: "is_DateObj (post_createdAt p) \<Longrightarrow> json_post p \<noteq> p"
proof
  assume d: "is_DateObj (post_createdAt p)" and e: "json_post p = p"
  from e have "post_createdAt (json_post p) = post_createdAt p" by simp
  then have "json_date (post_createdAt p) = post_createdAt p"
    by (simp add: json_post_def)
  with d show False
    by (cases "post_createdAt p") (simp_all add: json_date_def)
qed

lemma map_fixed: "map f xs = xs \<Longrightarrow> x \<in> set xs \<Longrightarrow> f x = x"
  by (induction xs) auto

text \<open>
  C9, on the code: when the callback throws, the error is propagated, and \<open>users\<close> and
  \<open>posts\<close> are set to the snapshot, which is the image of the rows under
  \<^verbatim>\<open>JSON.parse(JSON.stringify(...))\<close>. That image is not the state the transaction began
  with as soon as one post carries a Date object in \<open>createdAt\<close> (every post the code
  creates does): the Date has become a string.
\<close>

theorem rollback_restores_json_image:
  assumes "callback (initializeData E s) = (Inl e, s1)"
  shows "fst (transaction E callback s) = Inl e \<and>
         posts (snd (transaction E callback s)) = map json_post (posts (initializeData E s)) \<and>
         users (snd (transaction E callback s)) = map json_user (users (initializeData E s)) \<and>
         (list_ex (\<lambda>p. is_DateObj (post_createdAt p)) (posts (initializeData E s)) \<longrightarrow>
            posts (snd (transaction E callback s)) \<noteq> posts (initializeData E s))"
proof -
  have "map json_post ps \<noteq> ps" if "list_ex (\<lambda>p. is_DateObj (post_createdAt p)) ps" for ps
  proof
    assume "map json_post ps = ps"
    then have "\<forall>p \<in> set ps. json_post p = p"
      using map_fixed [of json_post ps] by blast
    with that json_post_changes show False
      by (auto simp: list_ex_iff)
  qed
  then show ?thesis
    using transaction_throws [of callback E s e s1] assms by simp
qed


lemma sample_state_seeded: "initializeData sample_env sample_state = sample_state"
  by code_simp

lemma sample_posts_dated: "list_ex (\<lambda>p. is_DateObj (post_createdAt p)) (posts sample_state)"
  by code_simp

lemma foreign_delete_rolls_back:
  "deleteOwned sample_env 9000 sample_state post2_id alice_id =
     (Inl (ForbiddenError ''You can only delete your own posts''), rolled_back_state)"
  by code_simp

lemma rolled_back_posts:
  "posts rolled_back_state =
     [post1\<lparr>post_createdAt := DateStr 5000\<rparr>, post2\<lparr>post_createdAt := DateStr 3000\<rparr>]"
  by code_simp

lemma feed_before_rollback:
  "\<not> isl (fst (PostModel_getAllWithAuthors sample_env 9000 sample_state None None None))"
  by code_simp

lemma feed_after_rollback:
  "fst (PostModel_getAllWithAuthors sample_env 9000 rolled_back_state None None None) =
     Inl TypeError"
  by code_simp

theorem rollback_restores_json_image_witness:
  "fst (transaction sample_env (\<lambda>t. (Inl (NotFoundError ''User'') :: js_error + post, t)) sample_state) =
     Inl (NotFoundError ''User'') \<and>
   posts (snd (transaction sample_env (\<lambda>t. (Inl (NotFoundError ''User'') :: js_error + post, t)) sample_state)) \<noteq>
     posts sample_state \<and>
   deleteOwned sample_env 9000 sample_state post2_id alice_id =
     (Inl (ForbiddenError ''You can only delete your own posts''), rolled_back_state) \<and>
   posts rolled_back_state =
     [post1\<lparr>post_createdAt := DateStr 5000\<rparr>, post2\<lparr>post_createdAt := DateStr 3000\<rparr>] \<and>
   \<not> isl (fst (PostModel_getAllWithAuthors sample_env 9000 sample_state None None None)) \<and>
   fst (PostModel_getAllWithAuthors sample_env 9000 rolled_back_state None None None) =
     Inl TypeError"
proof -
  have cb: "(\<lambda>t. (Inl (NotFoundError ''User'') :: js_error + post, t)) (initializeData sample_env sample_state) =
            (Inl (NotFoundError ''User''), sample_state)"
    by (simp add: sample_state_seeded)
  have dated: "list_ex (\<lambda>p. is_DateObj (post_createdAt p))
                 (posts (initializeData sample_env sample_state))"
    using sample_posts_dated by (simp add: sample_state_seeded)
  from rollback_restores_json_image
         [of "\<lambda>t. (Inl (NotFoundError ''User'') :: js_error + post, t)" sample_env sample_state
             "NotFoundError ''User''" sample_state, OF cb] dated
  have "fst (transaction sample_env (\<lambda>t. (Inl (NotFoundError ''User'') :: js_error + post, t)) sample_state) =
          Inl (NotFoundError ''User'') \<and>
        posts (snd (transaction sample_env (\<lambda>t. (Inl (NotFoundError ''User'') :: js_error + post, t))
                      sample_state)) \<noteq>
          posts (initializeData sample_env sample_state)"
    by blast
  then show ?thesis
    using foreign_delete_rolls_back rolled_back_posts feed_before_rollback feed_after_rollback
    by (simp only: sample_state_seeded simp_thms)
qed

section \<open>Post content\<close>

lemma length_collapse_ws: "length (collapse_ws s) \<le> length s"
proof (induction s rule: collapse_ws.induct)
  case 1
  then show ?case by simp
next
  case (2 c cs)
  have "length (dropWhile is_space cs) \<le> length cs"
    by (rule length_dropWhile_le)
  with 2 show ?case
    by (auto simp del: collapse_ws.simps simp add: collapse_ws.simps(2) [of c cs])
qed

lemma length_trim: "length (trim s) \<le> length s"
proof -
  have "length (dropWhile is_space (rev (dropWhile is_space s))) \<le> length (dropWhile is_space s)"
    using length_dropWhile_le [of is_space "rev (dropWhile is_space s)"] by simp
  also have "\<dots> \<le> length s"
    by (rule length_dropWhile_le)
  finally show ?thesis
    by (simp add: trim_def)
qed

lemma length_sanitizeText: "length (sanitizeText body) \<le> js_length body"
proof (cases body)
  case (JString s)
  have "length (trim (collapse_ws (filter (\<lambda>c. c \<noteq> CHR ''<'' \<and> c \<noteq> CHR ''>'') s)))
        \<le> length (filter (\<lambda>c. c \<noteq> CHR ''<'' \<and> c \<noteq> CHR ''>'') s)"
    using length_trim length_collapse_ws order_trans by blast
  also have "\<dots> \<le> length s"
    by (rule length_filter_le)
  finally show ?thesis
    using JString by simp
next
  case JOther
  then show ?thesis by simp
qed

lemma create_valid:
  assumes "isValidId (JString uid)" and "tx_userExists (initializeData E s) uid"
    and "validatePostContent body = Inr ()"
  shows "create E now newId s uid body =
     (Inr \<lparr> post_id = newId, userId = uid, content = sanitizeText body,
            post_createdAt = DateObj now, post_deletedAt = None \<rparr>,
      (initializeData E s)\<lparr>
        posts := posts (initializeData E s) @
          [\<lparr> post_id = newId, userId = uid, content = sanitizeText body,
             post_createdAt = DateObj now, post_deletedAt = None \<rparr>],
        cache := deletePattern (deletePattern (cache s) (''posts:user:'' @ uid @ '':*''))
                   ''posts:feed:*''\<rparr>)"
proof -
  have ii: "initializeData E (initializeData E s) = initializeData E s"
    by (simp add: initializeData_def)
  show ?thesis
    using assms
    by (simp add: create_def transaction_def tx_insertPost_def createPost_def Let_def ii
        initializeData_cache)
qed


lemma create_rejects_long_content:
  assumes "js_length body > 280"
  shows "\<exists>msg. fst (create E now newId s uid body) = Inl (ValidationError msg)"
  using assms
  by (auto simp add: create_def validatePostContent_def MAX_POST_LENGTH_def)

lemma validatePostContent_280:
  assumes "isNonEmptyString body" and "js_length body = 280"
  shows "validatePostContent body = Inr ()"
  using assms by (simp add: validatePostContent_def MAX_POST_LENGTH_def)

lemma angle_bracket_passes:
  "validatePostContent (JString ''<'') = Inr () \<and> sanitizeText (JString ''<'') = []"
  by code_simp

text \<open>
  C6, on the code: \<^verbatim>\<open>create\<close> validates the content as it arrives and persists the
  sanitized content. For an existing active author and a content that passes
  \<^verbatim>\<open>validatePostContent\<close>, the post that is returned and appended to the store carries
  \<^verbatim>\<open>sanitizeText(content)\<close>, which has at most 280 characters. The lower bound is not
  enforced on what is stored: the content \<^verbatim>\<open><\<close> passes the validation and is stored as
  the empty string.
\<close>

theorem create_persists_sanitized_content:
  assumes "isValidId (JString uid)" and "tx_userExists (initializeData E s) uid"
    and "validatePostContent body = Inr ()"
  shows "fst (create E now newId s uid body) =
           Inr \<lparr> post_id = newId, userId = uid, content = sanitizeText body,
                  post_createdAt = DateObj now, post_deletedAt = None \<rparr> \<and>
         posts (snd (create E now newId s uid body)) =
           posts (initializeData E s) @
             [\<lparr> post_id = newId, userId = uid, content = sanitizeText body,
                post_createdAt = DateObj now, post_deletedAt = None \<rparr>] \<and>
         length (sanitizeText body) \<le> 280 \<and>
         validatePostContent (JString ''<'') = Inr () \<and>
         sanitizeText (JString ''<'') = []"
proof -
  have "js_length body \<le> 280"
    using assms(3) by (simp add: validatePostContent_def MAX_POST_LENGTH_def split: if_splits)
  then have "length (sanitizeText body) \<le> 280"
    using length_sanitizeText [of body] by simp
  then show ?thesis
    using create_valid [OF assms, of now newId] angle_bracket_passes by simp
qed

lemma alice_exists: "tx_userExists (initializeData sample_env sample_state) alice_id"
  by code_simp

theorem create_persists_sanitized_content_witness:
  "fst (create sample_env 9000 new_post_id sample_state alice_id (JString ''<'')) =
     Inr \<lparr> post_id = new_post_id, userId = alice_id, content = [],
            post_createdAt = DateObj 9000, post_deletedAt = None \<rparr> \<and>
   posts (snd (create sample_env 9000 new_post_id sample_state alice_id (JString ''<''))) =
     [post1, post2,
      \<lparr> post_id = new_post_id, userId = alice_id, content = [],
        post_createdAt = DateObj 9000, post_deletedAt = None \<rparr>]"
  using create_persists_sanitized_content
          [OF alice_id_valid alice_exists conjunct1 [OF angle_bracket_passes],
           of 9000 new_post_id]
        angle_bracket_passes sample_state_seeded
  by (simp add: sample_state_def)

section \<open>Cache invalidation on writes\<close>

lemma list_all2_classes:
  assumes "list_all2 (\<lambda>p c. p c) ps s" and "\<forall>p \<in> set ps. \<forall>c. p c \<longrightarrow> Q c"
  shows "\<forall>c \<in> set s. Q c"
  using assms by (induction ps s rule: list_all2_induct) auto

lemma UUID_chars:
  assumes "isValidId (JString uid)"
  shows "CHR ''*'' \<notin> set uid \<and> CHR ''.'' \<notin> set uid"
proof -
  have cls: "\<forall>p \<in> set UUID_classes. \<forall>c. p c \<longrightarrow> (c \<noteq> CHR ''*'' \<and> c \<noteq> CHR ''.'')"
    by (auto simp: UUID_classes_def is_hex_def)
  from list_all2_classes [OF _ cls, of uid] assms
  show ?thesis
    by (auto simp: UUID_REGEX_test_def)
qed

lemma replace_first_star_lit:
  "CHR ''*'' \<notin> set lit \<Longrightarrow> replace_first_star (lit @ ''*'' @ rest) = lit @ ''.*'' @ rest"
  by (induction lit) auto

lemma re_parse_lit:
  "CHR ''*'' \<notin> set lit \<Longrightarrow> CHR ''.'' \<notin> set lit \<Longrightarrow>
   re_parse (lit @ ''.*'') = map (\<lambda>c. One (Lit c)) lit @ [Many Dot]"
proof (induction lit rule: re_parse.induct)
  case 1
  then show ?case by (simp add: re_atom_of_def)
next
  case (2 c)
  then show ?case by (simp add: re_atom_of_def)
next
  case (3 c d cs)
  then show ?case by (auto simp add: re_atom_of_def)
qed

lemma matches_here_lit:
  "matches_here (map (\<lambda>c. One (Lit c)) lit @ [Many Dot]) (lit @ rest)"
proof (induction lit)
  case Nil
  show ?case by (cases rest) simp_all
next
  case (Cons c lit)
  then show ?case by simp
qed

lemma matches_somewhere_here: "matches_here ps t \<Longrightarrow> matches_somewhere ps t"
  by (cases t) simp_all

lemma regex_test_prefix:
  assumes "CHR ''*'' \<notin> set lit" and "CHR ''.'' \<notin> set lit" and "prefix lit key"
  shows "regex_test (replace_first_star (lit @ ''*'')) key"
proof -
  from assms(3) obtain rest where key: "key = lit @ rest"
    by (auto simp: prefix_def)
  have "replace_first_star (lit @ ''*'') = lit @ ''.*''"
    using replace_first_star_lit [OF assms(1), of "[]"] by simp
  then show ?thesis
    using re_parse_lit [OF assms(1,2)] matches_here_lit [of lit rest]
    by (simp add: regex_test_def key matches_somewhere_here)
qed

lemma deletePattern_matching:
  "regex_test (replace_first_star pattern) key \<Longrightarrow> map_of (deletePattern c pattern) key = None"
  by (induction c) (auto simp: deletePattern_def)

lemma deletePattern_absent:
  "map_of c key = None \<Longrightarrow> map_of (deletePattern c pattern) key = None"
  by (induction c) (auto simp: deletePattern_def split: if_splits)

lemma cache_delete_key: "map_of (cache_delete c key) key = None"
  by (simp add: cache_delete_def delete_conv')

lemma feed_pattern:
  "prefix ''posts:feed:'' key \<Longrightarrow> map_of (deletePattern c ''posts:feed:*'') key = None"
proof -
  assume p: "prefix ''posts:feed:'' key"
  have "regex_test (replace_first_star (''posts:feed:'' @ ''*'')) key"
    by (rule regex_test_prefix [OF _ _ p]) simp_all
  then show ?thesis
    using deletePattern_matching [of "''posts:feed:*''" key c] by simp
qed

lemma user_pattern:
  assumes "isValidId (JString uid)" and "prefix (''posts:user:'' @ uid @ '':'') key"
  shows "map_of (deletePattern c (''posts:user:'' @ uid @ '':*'')) key = None"
proof -
  have "regex_test (replace_first_star ((''posts:user:'' @ uid @ '':'') @ ''*'')) key"
    using UUID_chars [OF assms(1)] by (intro regex_test_prefix [OF _ _ assms(2)]) simp_all
  then show ?thesis
    using deletePattern_matching [of "''posts:user:'' @ uid @ '':*''" key c] by simp
qed


lemma create_success_cache:
  assumes "create E now newId s uid body = (Inr p, s')"
  shows "isValidId (JString uid) \<and>
         (\<exists>c. cache s' = deletePattern (deletePattern c (''posts:user:'' @ uid @ '':*''))
                            ''posts:feed:*'')"
  using assms
  by (auto simp add: create_def Let_def split: if_splits sum.splits prod.splits)

lemma deleteOwned_success_cache:
  assumes "deleteOwned E now s pid uid = (Inr b, s')"
  shows "isValidId (JString uid) \<and>
         (\<exists>c. cache s' =
                deletePattern
                  (deletePattern (cache_delete c (cacheKeys_post pid))
                     (''posts:user:'' @ uid @ '':*''))
                  ''posts:feed:*'')"
  using assms
  by (auto simp add: deleteOwned_def Let_def split: if_splits sum.splits prod.splits)

lemma register_success_cache:
  assumes "register E now newId s mail password name = (Inr r, s')"
  shows "\<exists>c. cache s' = cache_delete c cacheKeys_allUsers"
  using assms
  by (auto simp add: register_def Let_def split: if_splits sum.splits prod.splits option.splits)

text \<open>
  C4: after \<^verbatim>\<open>create\<close> has succeeded for the author \<open>uid\<close>, no key that starts with
  \<^verbatim>\<open>posts:feed:\<close> and no key that starts with \<^verbatim>\<open>posts:user:<uid>:\<close> is left in the cache,
  whatever the cache held before; after \<^verbatim>\<open>deleteOwned\<close> has succeeded the same holds and
  the key \<^verbatim>\<open>post:<id>\<close> of the deleted post is absent as well; after \<^verbatim>\<open>register\<close> has
  succeeded the key \<^verbatim>\<open>users:all\<close> is absent. The keys the readers build for feed pages
  and for the pages of a user's posts start with these prefixes.
\<close>

theorem writes_invalidate_cache:
  "(create E now newId s uid body = (Inr p, s1) \<longrightarrow>
      (\<forall>key. prefix ''posts:feed:'' key \<or> prefix (''posts:user:'' @ uid @ '':'') key \<longrightarrow>
             map_of (cache s1) key = None)) \<and>
   (deleteOwned E now s pid uid = (Inr b, s2) \<longrightarrow>
      (\<forall>key. prefix ''posts:feed:'' key \<or> prefix (''posts:user:'' @ uid @ '':'') key \<longrightarrow>
             map_of (cache s2) key = None) \<and>
      map_of (cache s2) (''post:'' @ pid) = None) \<and>
   (register E now newId s mail password name = (Inr r, s3) \<longrightarrow>
      map_of (cache s3) ''users:all'' = None) \<and>
   prefix ''posts:feed:'' (cacheKeys_feed page) \<and>
   prefix (''posts:user:'' @ uid @ '':'') (cacheKeys_userPosts uid page)"
proof -
  have wipe: "map_of (deletePattern (deletePattern c (''posts:user:'' @ uid @ '':*''))
                        ''posts:feed:*'') key = None"
    if "isValidId (JString uid)"
      "prefix ''posts:feed:'' key \<or> prefix (''posts:user:'' @ uid @ '':'') key" for c key
    using that feed_pattern user_pattern deletePattern_absent by blast
  have c1: "map_of (cache s1) key = None"
    if "create E now newId s uid body = (Inr p, s1)"
      "prefix ''posts:feed:'' key \<or> prefix (''posts:user:'' @ uid @ '':'') key" for key
    using create_success_cache [OF that(1)] wipe [OF _ that(2)] by auto
  have c2: "map_of (cache s2) key = None"
    if "deleteOwned E now s pid uid = (Inr b, s2)"
      "prefix ''posts:feed:'' key \<or> prefix (''posts:user:'' @ uid @ '':'') key" for key
    using deleteOwned_success_cache [OF that(1)] wipe [OF _ that(2)] by auto
  have c3: "map_of (cache s2) (''post:'' @ pid) = None"
    if "deleteOwned E now s pid uid = (Inr b, s2)"
    using deleteOwned_success_cache [OF that] cache_delete_key [of _ "''post:'' @ pid"]
      deletePattern_absent
    by (auto simp: cacheKeys_post_def)
  have c4: "map_of (cache s3) ''users:all'' = None"
    if "register E now newId s mail password name = (Inr r, s3)"
    using register_success_cache [OF that] cache_delete_key [of _ "''users:all''"]
    by (auto simp: cacheKeys_allUsers_def)
  have k: "prefix ''posts:feed:'' (cacheKeys_feed page)"
    "prefix (''posts:user:'' @ uid @ '':'') (cacheKeys_userPosts uid page)"
    by (simp_all add: cacheKeys_feed_def cacheKeys_userPosts_def)
  show ?thesis
    using c1 c2 c3 c4 k by blast
qed


lemma busy_cache_filled:
  "map_of (cache busy_state) ''posts:feed:page:0'' \<noteq> None \<and>
   map_of (cache busy_state) (''posts:user:'' @ alice_id @ '':page:0'') \<noteq> None \<and>
   map_of (cache busy_state) (''post:'' @ post1_id) \<noteq> None \<and>
   map_of (cache busy_state) ''users:all'' \<noteq> None"
  by code_simp

lemma busy_create_succeeds:
  "\<not> isl (fst (create sample_env 9000 new_post_id busy_state alice_id (JString ''hello'')))"
  by code_simp

lemma busy_delete_succeeds:
  "\<not> isl (fst (deleteOwned sample_env 9000 busy_state post1_id alice_id))"
  by code_simp

lemma busy_register_succeeds:
  "\<not> isl (fst (register sample_env 9000 carol_id busy_state (JString ''carol@example.com'')
                  (JString ''password1'') (JString ''Carol'')))"
  by code_simp

lemma not_isl_pair: "\<not> isl (fst x) \<Longrightarrow> \<exists>r. x = (Inr r, snd x)"
  by (cases x; cases "fst x") auto

theorem writes_invalidate_cache_witness:
  "map_of (cache busy_state) ''posts:feed:page:0'' \<noteq> None \<and>
   map_of (cache busy_state) (''posts:user:'' @ alice_id @ '':page:0'') \<noteq> None \<and>
   map_of (cache busy_state) (''post:'' @ post1_id) \<noteq> None \<and>
   map_of (cache busy_state) ''users:all'' \<noteq> None \<and>
   map_of (cache (snd (create sample_env 9000 new_post_id busy_state alice_id (JString ''hello''))))
     ''posts:feed:page:0'' = None \<and>
   map_of (cache (snd (create sample_env 9000 new_post_id busy_state alice_id (JString ''hello''))))
     (''posts:user:'' @ alice_id @ '':page:0'') = None \<and>
   map_of (cache (snd (deleteOwned sample_env 9000 busy_state post1_id alice_id)))
     ''posts:feed:page:0'' = None \<and>
   map_of (cache (snd (deleteOwned sample_env 9000 busy_state post1_id alice_id)))
     (''posts:user:'' @ alice_id @ '':page:0'') = None \<and>
   map_of (cache (snd (deleteOwned sample_env 9000 busy_state post1_id alice_id)))
     (''post:'' @ post1_id) = None \<and>
   map_of (cache (snd (register sample_env 9000 carol_id busy_state (JString ''carol@example.com'')
                         (JString ''password1'') (JString ''Carol''))))
     ''users:all'' = None"
proof -
  let ?c = "create sample_env 9000 new_post_id busy_state alice_id (JString ''hello'')"
  let ?d = "deleteOwned sample_env 9000 busy_state post1_id alice_id"
  let ?r = "register sample_env 9000 carol_id busy_state (JString ''carol@example.com'')
              (JString ''password1'') (JString ''Carol'')"
  obtain p where p: "?c = (Inr p, snd ?c)"
    using not_isl_pair [OF busy_create_succeeds] by blast
  obtain b where b: "?d = (Inr b, snd ?d)"
    using not_isl_pair [OF busy_delete_succeeds] by blast
  obtain r where r: "?r = (Inr r, snd ?r)"
    using not_isl_pair [OF busy_register_succeeds] by blast
  note inst = writes_invalidate_cache
    [where E = sample_env and now = 9000 and newId = new_post_id and s = busy_state
       and uid = alice_id and body = "JString ''hello''" and p = p and ?s1.0 = "snd ?c"
       and pid = post1_id and b = b and ?s2.0 = "snd ?d" and page = 0]
  note inst2 = writes_invalidate_cache
    [where E = sample_env and now = 9000 and newId = carol_id and s = busy_state
       and mail = "JString ''carol@example.com''" and password = "JString ''password1''"
       and name = "JString ''Carol''" and r = r and ?s3.0 = "snd ?r"]
  have pf: "prefix ''posts:feed:'' ''posts:feed:page:0''"
    "prefix (''posts:user:'' @ alice_id @ '':'') (''posts:user:'' @ alice_id @ '':page:0'')"
    by simp_all
  from inst p b pf have "map_of (cache (snd ?c)) ''posts:feed:page:0'' = None"
    "map_of (cache (snd ?c)) (''posts:user:'' @ alice_id @ '':page:0'') = None"
    "map_of (cache (snd ?d)) ''posts:feed:page:0'' = None"
    "map_of (cache (snd ?d)) (''posts:user:'' @ alice_id @ '':page:0'') = None"
    "map_of (cache (snd ?d)) (''post:'' @ post1_id) = None"
    by blast+
  moreover from inst2 r have "map_of (cache (snd ?r)) ''users:all'' = None"
    by blast
  ultimately show ?thesis
    using busy_cache_filled by blast
qed

section \<open>Deleting a post\<close>

lemma find_findIndex:
  "find P xs = Some u \<Longrightarrow> \<exists>i. findIndex P xs = Some i \<and> i < length xs \<and> xs ! i = u"
  by (induction xs) (auto split: if_splits)

lemma set_js_slice: "set (js_slice xs a b) \<subseteq> set xs"
proof -
  have "set (take n (drop m xs)) \<subseteq> set xs" for n m
    using set_take_subset [of n "drop m xs"] set_drop_subset [of m xs] by blast
  then show ?thesis
    by (simp add: js_slice_def Let_def)
qed

lemma set_sort_posts: "sort_posts ord ps = Inr qs \<Longrightarrow> set qs = set ps"
  by (auto simp: sort_posts_def split: if_splits)

lemma findPosts_live:
  assumes "findPosts E s options = (Inr ps, s1)" and "where_deletedAt_null options"
    and "q \<in> set ps"
  shows "q \<in> set (posts (initializeData E s)) \<and> post_deletedAt q = None"
proof -
  define s0 where "s0 = initializeData E s"
  define r1 where "r1 = (case where_userId options of
               Some uid \<Rightarrow> if uid \<noteq> [] then filter (\<lambda>p. userId p = uid) (posts s0) else posts s0
             | None \<Rightarrow> posts s0)"
  define r2 where "r2 = filter (\<lambda>p. post_deletedAt p = None) r1"
  define srt where "srt = (case orderBy_createdAt options of
                             Some ord \<Rightarrow> sort_posts ord r2 | None \<Rightarrow> Inr r2)"
  define off where "off = (case opt_offset options of Some n \<Rightarrow> n | None \<Rightarrow> 0)"
  define lim where "lim = (case opt_limit options of Some n \<Rightarrow> n | None \<Rightarrow> 20)"
  have eq: "findPosts E s options =
      (case srt of Inl e \<Rightarrow> (Inl e, s0) | Inr result \<Rightarrow> (Inr (js_slice result off (off + lim)), s0))"
    unfolding srt_def r2_def r1_def s0_def off_def lim_def findPosts_def Let_def
    using assms(2) by simp
  have r1: "set r1 \<subseteq> set (posts s0)"
    by (cases "where_userId options") (auto simp: r1_def)
  obtain sorted where srt: "srt = Inr sorted" and ps: "ps = js_slice sorted off (off + lim)"
    using assms(1) unfolding eq by (cases srt) auto
  have "set sorted = set r2"
  proof (cases "orderBy_createdAt options")
    case None
    then show ?thesis using srt by (simp add: srt_def)
  next
    case (Some ord)
    then show ?thesis using srt set_sort_posts [of ord r2 sorted] by (simp add: srt_def)
  qed
  moreover have "q \<in> set sorted"
    using assms(3) ps set_js_slice [of sorted off "off + lim"] by blast
  ultimately have "q \<in> set r2" by simp
  then show ?thesis
    using r1 by (auto simp: r2_def s0_def)
qed

lemma with_authors_posts:
  "(q, a) \<in> set (fst (with_authors E now ps s)) \<Longrightarrow> q \<in> set ps"
proof (induction ps arbitrary: s)
  case Nil
  then show ?case by simp
next
  case (Cons p ps)
  obtain r s1 where g: "UserModel_getById E now s (userId p) = (r, s1)"
    by (cases "UserModel_getById E now s (userId p)")
  obtain rest s2 where w: "with_authors E now ps s1 = (rest, s2)"
    by (cases "with_authors E now ps s1")
  have "q = p \<or> (q, a) \<in> set rest"
    using Cons.prems g w by (cases r) auto
  moreover have "q \<in> set ps" if "(q, a) \<in> set rest"
    using Cons.IH [of s1] that w by simp
  ultimately show ?case by auto
qed


lemma cache_get_absent: "map_of c key = None \<Longrightarrow> cache_get now c key = (None, c)"
  by (simp add: cache_get_def)

lemma getByUserId_miss_live:
  assumes "isValidId (JString uid)"
    and "\<forall>page. map_of (cache s) (cacheKeys_userPosts uid page) = None"
    and "fst (PostModel_getByUserId E now s uid lim off ord) = Inr v"
  shows "\<exists>ps. v = CPosts ps \<and>
           (\<forall>q \<in> set ps. q \<in> set (posts (initializeData E s)) \<and> post_deletedAt q = None)"
proof -
  from assms(1,3) obtain pg where pg: "validatePagination lim off ord = Inr pg"
    by (cases "validatePagination lim off ord") (simp_all add: PostModel_getByUserId_def)
  define opts where "opts = \<lparr> where_userId = Some uid, where_deletedAt_null = True,
                            orderBy_createdAt = Some (order pg), opt_limit = Some (limit pg),
                            opt_offset = Some (offset pg) \<rparr>"
  obtain r s1 where f: "findPosts E s opts = (r, s1)"
    by (cases "findPosts E s opts")
  have cg: "cache_get now (cache s) (cacheKeys_userPosts uid (nat (offset pg div limit pg))) =
            (None, cache s)"
    using assms(2) by (simp add: cache_get_absent)
  have res: "fst (PostModel_getByUserId E now s uid lim off ord) =
             (case r of Inl e \<Rightarrow> Inl e | Inr ps \<Rightarrow> Inr (CPosts ps))"
    using assms(1) pg cg f
    by (cases r) (simp_all add: PostModel_getByUserId_def Let_def opts_def)
  from res assms(3) obtain ps where ps: "r = Inr ps" "v = CPosts ps"
    by (cases r) auto
  have "where_deletedAt_null opts" by (simp add: opts_def)
  with findPosts_live [of E s opts ps s1] f ps(1)
  have "\<forall>q \<in> set ps. q \<in> set (posts (initializeData E s)) \<and> post_deletedAt q = None"
    by blast
  with ps(2) show ?thesis by blast
qed

lemma feed_miss_live:
  assumes "\<forall>page. map_of (cache s) (cacheKeys_feed page) = None"
    and "fst (PostModel_getAllWithAuthors E now s lim off ord) = Inr v"
  shows "\<exists>xs. v = CFeed xs \<and>
           (\<forall>x \<in> set xs. fst x \<in> set (posts (initializeData E s)) \<and>
                          post_deletedAt (fst x) = None)"
proof -
  from assms(2) obtain pg where pg: "validatePagination lim off ord = Inr pg"
    by (cases "validatePagination lim off ord") (simp_all add: PostModel_getAllWithAuthors_def)
  define opts where "opts = \<lparr> where_userId = None, where_deletedAt_null = True,
                            orderBy_createdAt = Some (order pg), opt_limit = Some (limit pg),
                            opt_offset = Some (offset pg) \<rparr>"
  obtain r s1 where f: "findPosts E s opts = (r, s1)"
    by (cases "findPosts E s opts")
  have cg: "cache_get now (cache s) (cacheKeys_feed (nat (offset pg div limit pg))) =
            (None, cache s)"
    using assms(1) by (simp add: cache_get_absent)
  have res: "fst (PostModel_getAllWithAuthors E now s lim off ord) =
             (case r of Inl e \<Rightarrow> Inl e
              | Inr ps \<Rightarrow> Inr (CFeed (fst (with_authors E now ps s1))))"
    using pg cg f
    by (cases r) (simp_all add: PostModel_getAllWithAuthors_def Let_def opts_def split_beta)
  from res assms(2) obtain ps where ps: "r = Inr ps" "v = CFeed (fst (with_authors E now ps s1))"
    by (cases r) auto
  have "where_deletedAt_null opts" by (simp add: opts_def)
  with findPosts_live [of E s opts ps s1] f ps(1)
  have live: "\<forall>q \<in> set ps. q \<in> set (posts (initializeData E s)) \<and> post_deletedAt q = None"
    by blast
  have "fst x \<in> set ps" if "x \<in> set (fst (with_authors E now ps s1))" for x
    using with_authors_posts [of "fst x" "snd x" E now ps s1] that by simp
  with live ps(2) show ?thesis by blast
qed

lemma PostModel_getById_deleted:
  assumes "isValidId (JString pid)" and "users s \<noteq> []"
    and "map_of (cache s) (cacheKeys_post pid) = None"
    and "find (\<lambda>q. post_id q = pid) (posts s) = Some p" and "post_deletedAt p \<noteq> None"
  shows "fst (PostModel_getById E now s pid) = Inl (NotFoundError ''Post'')"
  using assms
  by (simp add: PostModel_getById_def Let_def cache_get_absent findPostById_def
      initializeData_nonempty)


lemma softDeletePost_found:
  assumes "users s \<noteq> []" and "find (\<lambda>q. post_id q = pid) (posts s) = Some p"
    and "distinct (map post_id (posts s))"
  shows "users (softDeletePost E now s pid) = users s \<and>
         cache (softDeletePost E now s pid) = cache s \<and>
         find (\<lambda>q. post_id q = pid) (posts (softDeletePost E now s pid)) =
           Some (p\<lparr>post_deletedAt := Some (DateObj now)\<rparr>) \<and>
         map post_id (posts (softDeletePost E now s pid)) = map post_id (posts s) \<and>
         (\<forall>q \<in> set (posts (softDeletePost E now s pid)).
            post_id q = pid \<longrightarrow> post_deletedAt q \<noteq> None)"
proof -
  let ?p' = "p\<lparr>post_deletedAt := Some (DateObj now)\<rparr>"
  have pid: "post_id p = pid"
    using assms(2) by (auto simp: find_Some_iff)
  have "post_id ?p' = post_id p" "post_id ?p' = pid"
    using pid by simp_all
  from find_first_by_key [of "\<lambda>q. post_id q = pid" "posts s" p post_id ?p', OF assms(2,3) this]
  obtain i where i: "findIndex (\<lambda>x. post_id x = pid) (posts s) = Some i" "posts s ! i = p"
    "find (\<lambda>q. post_id q = pid) ((posts s)[i := ?p']) = Some ?p'"
    "map post_id ((posts s)[i := ?p']) = map post_id (posts s)"
    using pid by auto
  have il: "i < length (posts s)"
    using findIndex_Some [OF i(1)] by simp
  have sd: "softDeletePost E now s pid = s\<lparr>posts := (posts s)[i := ?p']\<rparr>"
    using assms(1) i(1,2) by (simp add: softDeletePost_def initializeData_nonempty)
  have only: "post_deletedAt q \<noteq> None"
    if "q \<in> set ((posts s)[i := ?p'])" "post_id q = pid" for q
  proof -
    from that(1) obtain j where j: "j < length (posts s)" "(posts s)[i := ?p'] ! j = q"
      by (auto simp: in_set_conv_nth)
    show ?thesis
    proof (cases "j = i")
      case True
      then show ?thesis using j il by auto
    next
      case False
      then have "posts s ! j = q" using j by simp
      then have "map post_id (posts s) ! j = map post_id (posts s) ! i"
        using j(1) il i(2) pid that(2) by simp
      moreover have "j < length (map post_id (posts s))" "i < length (map post_id (posts s))"
        using j(1) il by simp_all
      ultimately have "j = i"
        using assms(3) nth_eq_iff_index_eq [of "map post_id (posts s)" j i] by blast
      with False show ?thesis by simp
    qed
  qed
  show ?thesis
    unfolding sd using i(3,4) only by simp
qed

lemma deleteOwned_eq:
  assumes "isValidId (JString pid)" and "isValidId (JString uid)" and "users s \<noteq> []"
  shows "deleteOwned E now s pid uid =
     (case find (\<lambda>p. post_id p = pid) (posts s) of
        None \<Rightarrow> (Inl (NotFoundError ''Post''),
                 s\<lparr>posts := map json_post (posts s), users := map json_user (users s)\<rparr>)
      | Some p \<Rightarrow>
          if post_deletedAt p \<noteq> None
          then (Inl (NotFoundError ''Post''),
                s\<lparr>posts := map json_post (posts s), users := map json_user (users s)\<rparr>)
          else if userId p \<noteq> uid
          then (Inl (ForbiddenError ''You can only delete your own posts''),
                s\<lparr>posts := map json_post (posts s), users := map json_user (users s)\<rparr>)
          else (Inr True,
                (softDeletePost E now s pid)\<lparr>cache :=
                   deletePattern
                     (deletePattern
                        (cache_delete (cache (softDeletePost E now s pid)) (cacheKeys_post pid))
                        (''posts:user:'' @ uid @ '':*''))
                     ''posts:feed:*''\<rparr>))"
  using assms
  by (simp add: deleteOwned_def transaction_def Let_def tx_findPostByIdForUpdate_def
      tx_softDeletePost_def findPostById_def initializeData_nonempty split: option.splits)


lemma deleteOwned_missing:
  assumes "isValidId (JString pid)" and "isValidId (JString uid)" and "users s \<noteq> []"
    and "find (\<lambda>q. post_id q = pid) (posts s) = None"
  shows "fst (deleteOwned E now s pid uid) = Inl (NotFoundError ''Post'')"
  using assms(4) by (simp add: deleteOwned_eq [OF assms(1,2,3)])

lemma deleteOwned_gone:
  assumes "isValidId (JString pid)" and "isValidId (JString uid)" and "users s \<noteq> []"
    and "find (\<lambda>q. post_id q = pid) (posts s) = Some p" and "post_deletedAt p \<noteq> None"
  shows "fst (deleteOwned E now s pid uid) = Inl (NotFoundError ''Post'')"
  using assms(4,5) by (simp add: deleteOwned_eq [OF assms(1,2,3)])

lemma deleteOwned_foreign:
  assumes "isValidId (JString pid)" and "isValidId (JString uid)" and "users s \<noteq> []"
    and "find (\<lambda>q. post_id q = pid) (posts s) = Some p" and "post_deletedAt p = None"
    and "userId p \<noteq> uid"
  shows "fst (deleteOwned E now s pid uid) =
           Inl (ForbiddenError ''You can only delete your own posts'')"
  using assms(4,5,6) by (simp add: deleteOwned_eq [OF assms(1,2,3)])

lemma deleteOwned_own:
  assumes v: "isValidId (JString pid)" "isValidId (JString uid)"
    and ne: "users s \<noteq> []"
    and f: "find (\<lambda>q. post_id q = pid) (posts s) = Some p" and live: "post_deletedAt p = None"
    and mine: "userId p = uid"
    and dist: "distinct (map post_id (posts s))"
  shows "fst (deleteOwned E now s pid uid) = Inr True \<and>
         find (\<lambda>q. post_id q = pid) (posts (snd (deleteOwned E now s pid uid))) =
           Some (p\<lparr>post_deletedAt := Some (DateObj now)\<rparr>) \<and>
         map post_id (posts (snd (deleteOwned E now s pid uid))) = map post_id (posts s) \<and>
         (\<forall>t. fst (PostModel_getById E t (snd (deleteOwned E now s pid uid)) pid) =
                Inl (NotFoundError ''Post'')) \<and>
         (\<forall>t lim off ord v.
            fst (PostModel_getByUserId E t (snd (deleteOwned E now s pid uid)) uid lim off ord)
              = Inr v \<longrightarrow> \<not> mentions_post pid v) \<and>
         (\<forall>t lim off ord v.
            fst (PostModel_getAllWithAuthors E t (snd (deleteOwned E now s pid uid)) lim off ord)
              = Inr v \<longrightarrow> \<not> mentions_post pid v) \<and>
         (\<forall>t. fst (deleteOwned E t (snd (deleteOwned E now s pid uid)) pid uid) =
                Inl (NotFoundError ''Post''))"
proof -
  define sd where "sd = softDeletePost E now s pid"
  define c' where "c' = deletePattern
                   (deletePattern (cache_delete (cache sd) (cacheKeys_post pid))
                      (''posts:user:'' @ uid @ '':*''))
                   ''posts:feed:*''"
  define s' where "s' = sd\<lparr>cache := c'\<rparr>"
  let ?p' = "p\<lparr>post_deletedAt := Some (DateObj now)\<rparr>"
  have res: "deleteOwned E now s pid uid = (Inr True, s')"
    using f live mine by (simp add: deleteOwned_eq [OF v ne] s'_def c'_def sd_def)
  from softDeletePost_found [OF ne f dist, of E now]
  have u': "users s' = users s" and f': "find (\<lambda>q. post_id q = pid) (posts s') = Some ?p'"
    and ids': "map post_id (posts s') = map post_id (posts s)"
    and only: "\<forall>q \<in> set (posts s'). post_id q = pid \<longrightarrow> post_deletedAt q \<noteq> None"
    by (simp_all add: s'_def sd_def)
  have ne': "users s' \<noteq> []" using u' ne by simp
  have init': "initializeData E s' = s'"
    using ne' by (rule initializeData_nonempty)
  have kp: "map_of (cache s') (cacheKeys_post pid) = None"
    by (simp add: s'_def c'_def cache_delete_key deletePattern_absent)
  have ku: "\<forall>page. map_of (cache s') (cacheKeys_userPosts uid page) = None"
  proof
    fix page
    have "prefix (''posts:user:'' @ uid @ '':'') (cacheKeys_userPosts uid page)"
      by (simp add: cacheKeys_userPosts_def)
    from user_pattern [OF v(2) this]
    show "map_of (cache s') (cacheKeys_userPosts uid page) = None"
      by (simp add: s'_def c'_def deletePattern_absent)
  qed
  have kf: "\<forall>page. map_of (cache s') (cacheKeys_feed page) = None"
  proof
    fix page
    have "prefix ''posts:feed:'' (cacheKeys_feed page)"
      by (simp add: cacheKeys_feed_def)
    from feed_pattern [OF this]
    show "map_of (cache s') (cacheKeys_feed page) = None"
      by (simp add: s'_def c'_def)
  qed
  have r1: "fst (PostModel_getById E t s' pid) = Inl (NotFoundError ''Post'')" for t
    by (rule PostModel_getById_deleted [OF v(1) ne' kp f']) simp
  have r2: "\<not> mentions_post pid v"
    if "fst (PostModel_getByUserId E t s' uid lim off ord) = Inr v" for t lim off ord v
  proof -
    from getByUserId_miss_live [OF v(2) ku that] obtain ps where
      ps: "v = CPosts ps" "\<forall>q \<in> set ps. q \<in> set (posts s') \<and> post_deletedAt q = None"
      by (auto simp: init')
    with only show ?thesis by auto
  qed
  have r3: "\<not> mentions_post pid v"
    if "fst (PostModel_getAllWithAuthors E t s' lim off ord) = Inr v" for t lim off ord v
  proof -
    from feed_miss_live [OF kf that] obtain xs where
      xs: "v = CFeed xs"
        "\<forall>x \<in> set xs. fst x \<in> set (posts s') \<and> post_deletedAt (fst x) = None"
      by (auto simp: init')
    have "post_id (fst x) \<noteq> pid" if "x \<in> set xs" for x
      using xs(2) only that by fastforce
    then show ?thesis
      using xs(1) by auto
  qed
  have r4: "fst (deleteOwned E t s' pid uid) = Inl (NotFoundError ''Post'')" for t
    using deleteOwned_eq [OF v ne', of E t] f' by simp
  show ?thesis
    unfolding res using f' ids' r1 r2 r3 r4 by simp
qed

lemma initializeData_idem: "initializeData E (initializeData E s) = initializeData E s"
  by (simp add: initializeData_def)

lemma transaction_seeds:
  "transaction E callback (initializeData E s) = transaction E callback s"
  by (simp add: transaction_def initializeData_idem)

lemma deleteOwned_seeds:
  "isValidId (JString pid) \<Longrightarrow> isValidId (JString uid) \<Longrightarrow>
   deleteOwned E now (initializeData E s) pid uid = deleteOwned E now s pid uid"
  by (simp add: deleteOwned_def transaction_seeds)

lemma seeded_users: "users s \<noteq> [] \<or> seed_users E \<noteq> [] \<Longrightarrow> users (initializeData E s) \<noteq> []"
  by (auto simp: initializeData_def)

text \<open>
  C5, as the code has it. A post id or user id that is not UUID-shaped is turned away
  with a ValidationError (400) before any lookup. For UUID-shaped ids, in any store (the
  seed is installed first when the store is empty; the seed of the code has three users):
  deleting a post that does not exist, or one that is already soft-deleted, fails with
  NotFound (404); deleting a live post of another user fails with Forbidden (403);
  deleting one's own live post returns true and is a soft delete: the row stays in the
  store with \<open>deletedAt\<close> set. On the resulting state, the post ids being distinct, at any
  later clock reading and for any pagination, get-post-by-id fails with NotFound, no page
  of the author's posts and no page of the feed that is returned shows the post, and
  deleting it again fails with NotFound.
\<close>

theorem deleteOwned_outcomes:
  assumes "users s \<noteq> [] \<or> seed_users E \<noteq> []"
  shows "(\<not> isValidId (JString pid) \<or> \<not> isValidId (JString uid) \<longrightarrow>
            deleteOwned E now s pid uid =
              (Inl (ValidationError ''Invalid post or user ID''), s)) \<and>
         (isValidId (JString pid) \<and> isValidId (JString uid) \<longrightarrow>
            (find (\<lambda>q. post_id q = pid) (posts (initializeData E s)) = None \<longrightarrow>
               fst (deleteOwned E now s pid uid) = Inl (NotFoundError ''Post'')) \<and>
            (\<forall>p. find (\<lambda>q. post_id q = pid) (posts (initializeData E s)) = Some p \<and>
                 post_deletedAt p \<noteq> None \<longrightarrow>
               fst (deleteOwned E now s pid uid) = Inl (NotFoundError ''Post'')) \<and>
            (\<forall>p. find (\<lambda>q. post_id q = pid) (posts (initializeData E s)) = Some p \<and>
                 post_deletedAt p = None \<and> userId p \<noteq> uid \<longrightarrow>
               fst (deleteOwned E now s pid uid) =
                 Inl (ForbiddenError ''You can only delete your own posts'')) \<and>
            (\<forall>p. find (\<lambda>q. post_id q = pid) (posts (initializeData E s)) = Some p \<and>
                 post_deletedAt p = None \<and> userId p = uid \<and>
                 distinct (map post_id (posts (initializeData E s))) \<longrightarrow>
               fst (deleteOwned E now s pid uid) = Inr True \<and>
               find (\<lambda>q. post_id q = pid) (posts (snd (deleteOwned E now s pid uid))) =
                 Some (p\<lparr>post_deletedAt := Some (DateObj now)\<rparr>) \<and>
               map post_id (posts (snd (deleteOwned E now s pid uid))) =
                 map post_id (posts (initializeData E s)) \<and>
               (\<forall>t. fst (PostModel_getById E t (snd (deleteOwned E now s pid uid)) pid) =
                      Inl (NotFoundError ''Post'')) \<and>
               (\<forall>t lim off ord v.
                  fst (PostModel_getByUserId E t (snd (deleteOwned E now s pid uid)) uid
                         lim off ord) = Inr v \<longrightarrow> \<not> mentions_post pid v) \<and>
               (\<forall>t lim off ord v.
                  fst (PostModel_getAllWithAuthors E t (snd (deleteOwned E now s pid uid))
                         lim off ord) = Inr v \<longrightarrow> \<not> mentions_post pid v) \<and>
               (\<forall>t. fst (deleteOwned E t (snd (deleteOwned E now s pid uid)) pid uid) =
                      Inl (NotFoundError ''Post'')))) \<and>
         statusCode (ValidationError ''Invalid post or user ID'') = 400 \<and>
         statusCode (NotFoundError ''Post'') = 404 \<and>
         statusCode (ForbiddenError ''You can only delete your own posts'') = 403"
proof -
  let ?s0 = "initializeData E s"
  have ne: "users ?s0 \<noteq> []"
    using assms by (rule seeded_users)
  have bad: "deleteOwned E now s pid uid = (Inl (ValidationError ''Invalid post or user ID''), s)"
    if "\<not> isValidId (JString pid) \<or> \<not> isValidId (JString uid)"
    using that by (auto simp: deleteOwned_def)
  have good: "(find (\<lambda>q. post_id q = pid) (posts ?s0) = None \<longrightarrow>
               fst (deleteOwned E now s pid uid) = Inl (NotFoundError ''Post'')) \<and>
            (\<forall>p. find (\<lambda>q. post_id q = pid) (posts ?s0) = Some p \<and>
                 post_deletedAt p \<noteq> None \<longrightarrow>
               fst (deleteOwned E now s pid uid) = Inl (NotFoundError ''Post'')) \<and>
            (\<forall>p. find (\<lambda>q. post_id q = pid) (posts ?s0) = Some p \<and>
                 post_deletedAt p = None \<and> userId p \<noteq> uid \<longrightarrow>
               fst (deleteOwned E now s pid uid) =
                 Inl (ForbiddenError ''You can only delete your own posts'')) \<and>
            (\<forall>p. find (\<lambda>q. post_id q = pid) (posts ?s0) = Some p \<and>
                 post_deletedAt p = None \<and> userId p = uid \<and>
                 distinct (map post_id (posts ?s0)) \<longrightarrow>
               fst (deleteOwned E now s pid uid) = Inr True \<and>
               find (\<lambda>q. post_id q = pid) (posts (snd (deleteOwned E now s pid uid))) =
                 Some (p\<lparr>post_deletedAt := Some (DateObj now)\<rparr>) \<and>
               map post_id (posts (snd (deleteOwned E now s pid uid))) =
                 map post_id (posts ?s0) \<and>
               (\<forall>t. fst (PostModel_getById E t (snd (deleteOwned E now s pid uid)) pid) =
                      Inl (NotFoundError ''Post'')) \<and>
               (\<forall>t lim off ord v.
                  fst (PostModel_getByUserId E t (snd (deleteOwned E now s pid uid)) uid
                         lim off ord) = Inr v \<longrightarrow> \<not> mentions_post pid v) \<and>
               (\<forall>t lim off ord v.
                  fst (PostModel_getAllWithAuthors E t (snd (deleteOwned E now s pid uid))
                         lim off ord) = Inr v \<longrightarrow> \<not> mentions_post pid v) \<and>
               (\<forall>t. fst (deleteOwned E t (snd (deleteOwned E now s pid uid)) pid uid) =
                      Inl (NotFoundError ''Post'')))"
    if v: "isValidId (JString pid)" "isValidId (JString uid)"
  proof -
    have same: "deleteOwned E now s pid uid = deleteOwned E now ?s0 pid uid"
      using deleteOwned_seeds [OF v, of E now s] by simp
    show ?thesis
      unfolding same
      apply (intro conjI)
      subgoal by (rule impI) (erule deleteOwned_missing [OF v ne])
      subgoal by (intro allI impI, elim conjE) (rule deleteOwned_gone [OF v ne])
      subgoal by (intro allI impI, elim conjE) (rule deleteOwned_foreign [OF v ne])
      subgoal by (intro allI, rule impI, elim conjE) (rule deleteOwned_own [OF v ne])
      done
  qed
  show ?thesis
    apply (intro conjI)
    subgoal by (rule impI) (erule bad)
    subgoal by (rule impI, erule conjE) (rule good)
    subgoal by (simp add: ValidationError_def)
    subgoal by (simp add: NotFoundError_def)
    subgoal by (simp add: ForbiddenError_def)
    done
qed

lemma new_post_id_valid: "isValidId (JString new_post_id)"
  by code_simp

lemma busy_seeded: "users busy_state \<noteq> [] \<or> seed_users sample_env \<noteq> []"
  by code_simp

lemma busy_post1:
  "find (\<lambda>q. post_id q = post1_id) (posts (initializeData sample_env busy_state)) = Some post1 \<and>
   post_deletedAt post1 = None \<and> userId post1 = alice_id \<and>
   distinct (map post_id (posts (initializeData sample_env busy_state)))"
  by code_simp

lemma busy_post2:
  "find (\<lambda>q. post_id q = post2_id) (posts (initializeData sample_env busy_state)) = Some post2 \<and>
   post_deletedAt post2 = None \<and> userId post2 \<noteq> alice_id"
  by code_simp

lemma busy_no_such_post:
  "find (\<lambda>q. post_id q = new_post_id) (posts (initializeData sample_env busy_state)) = None"
  by code_simp

lemma feed_after_delete:
  "fst (PostModel_getAllWithAuthors sample_env 9500
          (snd (deleteOwned sample_env 9000 busy_state post1_id alice_id)) None None None) =
     Inr (CFeed [(post2, CProfile (toPublicProfile bob))])"
  by code_simp

lemma profile_after_delete:
  "fst (PostModel_getByUserId sample_env 9500
          (snd (deleteOwned sample_env 9000 busy_state post1_id alice_id)) alice_id
          None None None) = Inr (CPosts [])"
  by code_simp

lemma empty_store_seeded:
  "users \<lparr>users = [], posts = [], cache = []\<rparr> \<noteq> [] \<or> seed_users sample_env \<noteq> []"
  by code_simp

lemma empty_store_post1:
  "find (\<lambda>q. post_id q = post1_id)
     (posts (initializeData sample_env \<lparr>users = [], posts = [], cache = []\<rparr>)) = Some post1 \<and>
   post_deletedAt post1 = None \<and> userId post1 = alice_id \<and>
   distinct (map post_id (posts (initializeData sample_env \<lparr>users = [], posts = [], cache = []\<rparr>)))"
  by code_simp

theorem deleteOwned_outcomes_witness:
  "fst (deleteOwned sample_env 9000 busy_state post1_id alice_id) = Inr True \<and>
   fst (PostModel_getById sample_env 9500
          (snd (deleteOwned sample_env 9000 busy_state post1_id alice_id)) post1_id) =
     Inl (NotFoundError ''Post'') \<and>
   fst (PostModel_getAllWithAuthors sample_env 9500
          (snd (deleteOwned sample_env 9000 busy_state post1_id alice_id)) None None None) =
     Inr (CFeed [(post2, CProfile (toPublicProfile bob))]) \<and>
   \<not> mentions_post post1_id (CFeed [(post2, CProfile (toPublicProfile bob))]) \<and>
   fst (PostModel_getByUserId sample_env 9500
          (snd (deleteOwned sample_env 9000 busy_state post1_id alice_id)) alice_id
          None None None) = Inr (CPosts []) \<and>
   fst (deleteOwned sample_env 9000 busy_state post2_id alice_id) =
     Inl (ForbiddenError ''You can only delete your own posts'') \<and>
   fst (deleteOwned sample_env 9000 busy_state new_post_id alice_id) =
     Inl (NotFoundError ''Post'') \<and>
   deleteOwned sample_env 9000 busy_state ''abc'' alice_id =
     (Inl (ValidationError ''Invalid post or user ID''), busy_state) \<and>
   fst (deleteOwned sample_env 9000 \<lparr>users = [], posts = [], cache = []\<rparr> post1_id alice_id) =
     Inr True"
proof -
  note own = deleteOwned_outcomes
    [OF busy_seeded, where pid = post1_id and uid = alice_id and now = 9000]
  note foreign = deleteOwned_outcomes
    [OF busy_seeded, where pid = post2_id and uid = alice_id and now = 9000]
  note missing = deleteOwned_outcomes
    [OF busy_seeded, where pid = new_post_id and uid = alice_id and now = 9000]
  note malformed = deleteOwned_outcomes
    [OF busy_seeded, where pid = "''abc''" and uid = alice_id and now = 9000]
  note unseeded = deleteOwned_outcomes
    [OF empty_store_seeded, where pid = post1_id and uid = alice_id and now = 9000]
  have abc: "\<not> isValidId (JString ''abc'')"
    by code_simp
  from own busy_post1 post1_id_valid alice_id_valid have
    a: "fst (deleteOwned sample_env 9000 busy_state post1_id alice_id) = Inr True"
    and b: "fst (PostModel_getById sample_env 9500
          (snd (deleteOwned sample_env 9000 busy_state post1_id alice_id)) post1_id) =
          Inl (NotFoundError ''Post'')"
    and c: "\<And>v. fst (PostModel_getAllWithAuthors sample_env 9500
          (snd (deleteOwned sample_env 9000 busy_state post1_id alice_id)) None None None) = Inr v
          \<Longrightarrow> \<not> mentions_post post1_id v"
    by blast+
  from foreign busy_post2 post2_id_valid alice_id_valid have
    d: "fst (deleteOwned sample_env 9000 busy_state post2_id alice_id) =
          Inl (ForbiddenError ''You can only delete your own posts'')"
    by blast
  from missing busy_no_such_post new_post_id_valid alice_id_valid have
    e: "fst (deleteOwned sample_env 9000 busy_state new_post_id alice_id) =
          Inl (NotFoundError ''Post'')"
    by blast
  from malformed abc have
    f: "deleteOwned sample_env 9000 busy_state ''abc'' alice_id =
          (Inl (ValidationError ''Invalid post or user ID''), busy_state)"
    by blast
  from unseeded empty_store_post1 post1_id_valid alice_id_valid have
    g: "fst (deleteOwned sample_env 9000 \<lparr>users = [], posts = [], cache = []\<rparr>
               post1_id alice_id) = Inr True"
    by blast
  show ?thesis
    using a b c [OF feed_after_delete] d e f g feed_after_delete profile_after_delete
    by (simp only: simp_thms)
qed

text \<open>
  The claim C5 as it was written has the deletion of every post that does not exist fail
  with NotFound. The id \<^verbatim>\<open>abc\<close> names no post of the sample store; deleting it fails
  with a ValidationError (400), not with NotFound (404), and nothing is looked up.
\<close>

theorem malformed_post_id_not_NotFound:
  "find (\<lambda>q. post_id q = ''abc'') (posts sample_state) = None \<and>
   isValidId (JString alice_id) \<and>
   deleteOwned sample_env 9000 sample_state ''abc'' alice_id =
     (Inl (ValidationError ''Invalid post or user ID''), sample_state) \<and>
   ValidationError ''Invalid post or user ID'' \<noteq> NotFoundError ''Post'' \<and>
   statusCode (ValidationError ''Invalid post or user ID'') = 400"
  by code_simp


end
